theory Spec2Isabelle
  imports Complex_Main "HOL-Library.Sublist"
begin

section \<open>JSON values and the JavaScript operations the schema engine applies to them\<close>

text \<open>
  A schema document is what \<^verbatim>\<open>JSON.parse\<close> returns for the text of a file. An object is
  given by the members of its text, in the order of the text; what the parsed object
  holds, and the order in which it is enumerated, are computed from them below. A number
  is a rational, or one of the infinities that the parser returns for a literal out of
  range: the engine observes of a number whether it is zero, whether it equals another
  one, and its text. Strings are lists of code units.
\<close>

datatype number = Num rat | Infinity | MinusInfinity

datatype json =
    JNull
  | JBool bool
  | JNum number
  | JStr string
  | JArr "json list"
  | JObj "(string \<times> json) list"

text \<open>
  A property read can also reach what a value inherits from the standard library: a
  built-in function or prototype object, here known by a name.
\<close>

datatype jsval = Json json | Builtin string

text \<open>The exceptions the engine can raise. \<open>RangeError\<close> is the exhausted call stack.\<close>

datatype error = TypeError | SyntaxError | RangeError

text \<open>Truthiness of a value; \<open>None\<close> stands for \<^verbatim>\<open>undefined\<close>.\<close>

fun truthy :: "json \<Rightarrow> bool" where
  "truthy JNull = False"
| "truthy (JBool b) = b"
| "truthy (JNum n) = (n \<noteq> Num 0)"
| "truthy (JStr s) = (s \<noteq> [])"
| "truthy (JArr xs) = True"
| "truthy (JObj kvs) = True"

fun truthy_u :: "json option \<Rightarrow> bool" where
  "truthy_u None = False"
| "truthy_u (Some v) = truthy v"

fun truthy_v :: "jsval \<Rightarrow> bool" where
  "truthy_v (Json v) = truthy v"
| "truthy_v (Builtin h) = True"

text \<open>\<^verbatim>\<open>a || b\<close>\<close>

fun js_or :: "json option \<Rightarrow> json \<Rightarrow> json" where
  "js_or None b = b"
| "js_or (Some a) b = (if truthy a then a else b)"

subsection \<open>The properties of a parsed value\<close>

text \<open>Decimal numerals, as they name the elements of an array or the units of a string.\<close>

definition digit_char :: "nat \<Rightarrow> char" where
  "digit_char d = ''0123456789'' ! d"

fun dec :: "nat \<Rightarrow> string" where
  "dec n = (if n < 10 then [digit_char n] else dec (n div 10) @ [digit_char (n mod 10)])"

declare dec.simps [simp del]

text \<open>
  A key is an array index when it is the decimal numeral, without leading zeros, of a
  number below \<open>2\<^sup>3\<^sup>2 - 1\<close>.
\<close>

definition digit_value :: "char \<Rightarrow> int" where
  "digit_value c = int (length (takeWhile (\<lambda>d. d \<noteq> c) ''0123456789''))"

definition decimal_value :: "string \<Rightarrow> int" where
  "decimal_value k = foldl (\<lambda>n c. 10 * n + digit_value c) 0 k"

definition array_index :: "string \<Rightarrow> int option" where
  "array_index k =
     (if k \<noteq> [] \<and> list_all (\<lambda>c. c \<in> set ''0123456789'') k \<and> (k = ''0'' \<or> hd k \<noteq> CHR ''0'')
         \<and> decimal_value k < 4294967295
      then Some (decimal_value k) else None)"

definition index_order :: "string \<times> json \<Rightarrow> int" where
  "index_order m = (case array_index (fst m) of None \<Rightarrow> 0 | Some n \<Rightarrow> n)"

text \<open>
  The parser defines the members of an object one after the other: a member whose key is
  new is added at the end, a member whose key is there replaces the value and leaves the
  place.
\<close>

fun define_member :: "string \<Rightarrow> json \<Rightarrow> (string \<times> json) list \<Rightarrow> (string \<times> json) list" where
  "define_member k v [] = [(k, v)]"
| "define_member k v ((k', v') # ms) =
     (if k = k' then (k', v) # ms else (k', v') # define_member k v ms)"

fun define_members :: "(string \<times> json) list \<Rightarrow> (string \<times> json) list \<Rightarrow> (string \<times> json) list" where
  "define_members [] ms = ms"
| "define_members ((k, v) # kvs) ms = define_members kvs (define_member k v ms)"

definition members :: "(string \<times> json) list \<Rightarrow> (string \<times> json) list" where
  "members kvs = define_members kvs []"

text \<open>
  \<^verbatim>\<open>Object.entries(v)\<close> for a value other than null: the enumerable own properties. Those
  of an object come in the order of every enumeration of own keys: the keys that are
  array indices first, in ascending order, then the other keys in the order in which they
  were defined.
\<close>

fun entries :: "json \<Rightarrow> (string \<times> json) list" where
  "entries (JObj kvs) =
     sort_key index_order (filter (\<lambda>m. array_index (fst m) \<noteq> None) (members kvs)) @
     filter (\<lambda>m. array_index (fst m) = None) (members kvs)"
| "entries (JArr xs) = zip (map dec [0..<length xs]) xs"
| "entries (JStr s) = zip (map dec [0..<length s]) (map (\<lambda>c. JStr [c]) s)"
| "entries v = []"

text \<open>
  An own property of a value other than null, or \<^verbatim>\<open>undefined\<close>. Arrays and strings also own
  \<^verbatim>\<open>length\<close>, which is not enumerable.
\<close>

fun own_prop :: "json \<Rightarrow> string \<Rightarrow> json option" where
  "own_prop (JObj kvs) k = map_of (members kvs) k"
| "own_prop (JArr xs) k =
     (if k = ''length'' then Some (JNum (Num (of_nat (length xs))))
      else map_of (entries (JArr xs)) k)"
| "own_prop (JStr s) k =
     (if k = ''length'' then Some (JNum (Num (of_nat (length s))))
      else map_of (entries (JStr s)) k)"
| "own_prop v k = None"

text \<open>
  The engine reads the properties \<^verbatim>\<open>$id\<close>, \<^verbatim>\<open>type\<close>, \<^verbatim>\<open>items\<close>, \<^verbatim>\<open>properties\<close>, \<^verbatim>\<open>required\<close>,
  \<^verbatim>\<open>allOf\<close>, \<^verbatim>\<open>$ref\<close>, \<^verbatim>\<open>title\<close> and \<^verbatim>\<open>description\<close> by name. No object of the standard
  library has a property of one of these names, so that such a read finds an own property
  of a parsed value, or nothing; on null it raises a TypeError.
\<close>

definition get_prop :: "json \<Rightarrow> string \<Rightarrow> error + json option" where
  "get_prop v k = (if v = JNull then Inl TypeError else Inr (own_prop v k))"

fun named_prop :: "jsval \<Rightarrow> string \<Rightarrow> json option" where
  "named_prop (Json v) k = own_prop v k"
| "named_prop (Builtin h) k = None"

text \<open>
  What the values inherit is the runtime's, not the repository's: for a value and a key
  that the value does not own, the runtime gives the inherited property (for a built-in
  object, any of its properties), or \<^verbatim>\<open>undefined\<close>, or raises, as an accessor may.
\<close>

type_synonym runtime = "jsval \<Rightarrow> string \<Rightarrow> error + jsval option"

text \<open>
  \<^verbatim>\<open>v[k]\<close> for a key that comes from a reference: an own property first, an inherited one
  otherwise. Reading a property of null raises a TypeError.
\<close>

fun read_prop :: "runtime \<Rightarrow> jsval \<Rightarrow> string \<Rightarrow> error + jsval option" where
  "read_prop rt (Json v) k =
     (if v = JNull then Inl TypeError
      else (case own_prop v k of
              Some w \<Rightarrow> Inr (Some (Json w))
            | None \<Rightarrow> rt (Json v) k))"
| "read_prop rt (Builtin h) k = rt (Builtin h) k"

text \<open>\<^verbatim>\<open>Object.keys(v)\<close>: raises on null.\<close>

definition object_keys :: "json \<Rightarrow> error + string list" where
  "object_keys v = (if v = JNull then Inl TypeError else Inr (map fst (entries v)))"

text \<open>
  \<^verbatim>\<open>for (const x of v)\<close> for a truthy value: arrays and strings are iterable, the other
  values raise a TypeError.
\<close>

fun iterate :: "json \<Rightarrow> error + json list" where
  "iterate (JArr xs) = Inr xs"
| "iterate (JStr s) = Inr (map (\<lambda>c. JStr [c]) s)"
| "iterate v = Inl TypeError"

subsection \<open>Strings\<close>

text \<open>\<^verbatim>\<open>s.startsWith('#')\<close>\<close>

fun startsWith_hash :: "string \<Rightarrow> bool" where
  "startsWith_hash [] = False"
| "startsWith_hash (c # s) = (c = CHR ''#'')"

text \<open>\<^verbatim>\<open>s.endsWith(t)\<close>\<close>

definition endsWith :: "string \<Rightarrow> string \<Rightarrow> bool" where
  "endsWith s t = (length t \<le> length s \<and> drop (length s - length t) s = t)"

text \<open>\<^verbatim>\<open>s.split(c)\<close> for a one-character separator: never empty, \<^verbatim>\<open>''.split('/')\<close> is \<^verbatim>\<open>['']\<close>.\<close>

fun split_on :: "char \<Rightarrow> string \<Rightarrow> string list" where
  "split_on c [] = [[]]"
| "split_on c (x # xs) =
     (if x = c then [] # split_on c xs
      else (case split_on c xs of [] \<Rightarrow> [[x]] | s # ss \<Rightarrow> (x # s) # ss))"

text \<open>\<^verbatim>\<open>s.includes(t)\<close> on strings: \<open>t\<close> occurs in \<open>s\<close>.\<close>

fun str_includes :: "string \<Rightarrow> string \<Rightarrow> bool" where
  "str_includes [] t = (t = [])"
| "str_includes (c # s) t = (take (length t) (c # s) = t \<or> str_includes s t)"

subsection \<open>The schema store: a JavaScript Map\<close>

text \<open>
  The store is a \<^verbatim>\<open>Map\<close>: entries in insertion order, a key being any value. Keys are
  compared as \<^verbatim>\<open>Map\<close> compares them: primitive values by value, objects and arrays by
  identity. A key that is an object comes from the document just parsed, so it is
  identical to no earlier key.
\<close>

type_synonym store = "(json \<times> json) list"

fun same_key :: "json \<Rightarrow> json \<Rightarrow> bool" where
  "same_key (JArr xs) b = False"
| "same_key (JObj kvs) b = False"
| "same_key a b = (a = b)"

fun store_set :: "json \<Rightarrow> json \<Rightarrow> store \<Rightarrow> store" where
  "store_set k v [] = [(k, v)]"
| "store_set k v ((k', v') # st) =
     (if same_key k k' then (k', v) # st else (k', v') # store_set k v st)"

fun store_get :: "store \<Rightarrow> json \<Rightarrow> json option" where
  "store_get [] k = None"
| "store_get ((k', v') # st) k = (if same_key k k' then Some v' else store_get st k)"

section \<open>SchemaProcessor\<close>

subsection \<open>resolveRef\<close>

text \<open>
  The loop over the path segments of an internal reference: \<^verbatim>\<open>current = current[segment]\<close>,
  and \<^verbatim>\<open>return null\<close> as soon as the value read is falsy.
\<close>

fun walk :: "runtime \<Rightarrow> jsval \<Rightarrow> string list \<Rightarrow> error + jsval" where
  "walk rt current [] = Inr current"
| "walk rt current (segment # path) =
     (case read_prop rt current segment of
        Inl e \<Rightarrow> Inl e
      | Inr None \<Rightarrow> Inr (Json JNull)
      | Inr (Some v) \<Rightarrow> if \<not> truthy_v v then Inr (Json JNull) else walk rt v path)"

text \<open>
  The loop over the store of an external reference. \<open>Inr (Some schema)\<close> is the
  \<^verbatim>\<open>return schema\<close> inside the loop, \<open>Inr None\<close> the end of the loop without a match.
  An identifier that is not a string has no \<^verbatim>\<open>endsWith\<close>: calling it raises.
\<close>

fun scan :: "store \<Rightarrow> string \<Rightarrow> error + json option" where
  "scan [] ref = Inr None"
| "scan ((JStr i, schema) # st) ref =
     (if endsWith i ref \<or> endsWith ref i then Inr (Some schema) else scan st ref)"
| "scan ((k, schema) # st) ref = Inl TypeError"

text \<open>
  \<^verbatim>\<open>resolveRef(ref, baseSchema)\<close>. The reference is the value of a \<^verbatim>\<open>$ref\<close> key, so any
  truthy value; one that is not a string has no \<^verbatim>\<open>startsWith\<close>.
\<close>

fun resolveRef :: "runtime \<Rightarrow> store \<Rightarrow> json \<Rightarrow> json \<Rightarrow> error + jsval" where
  "resolveRef rt st (JStr ref) baseSchema =
     (if startsWith_hash ref then walk rt (Json baseSchema) (split_on CHR ''/'' (drop 2 ref))
      else
        (case scan st ref of
           Inl e \<Rightarrow> Inl e
         | Inr (Some schema) \<Rightarrow> Inr (Json schema)
         | Inr None \<Rightarrow> Inr (Json (js_or (store_get st (JStr ref)) JNull))))"
| "resolveRef rt st ref baseSchema = Inl TypeError"

subsection \<open>extractProperties\<close>

text \<open>One row of the table. The category is null or the title of a resolved branch.\<close>

record property =
  category :: json
  name :: string
  schema :: json
  required :: bool

text \<open>
  \<^verbatim>\<open>schema.required?.includes(name) || false\<close> for a schema other than null. The call is
  skipped when \<^verbatim>\<open>required\<close> is null or undefined; an array is searched for the name, a
  string for the name as a substring, and the other values have no \<^verbatim>\<open>includes\<close>.
\<close>

definition required_includes :: "json \<Rightarrow> string \<Rightarrow> error + bool" where
  "required_includes sch nm =
     (case own_prop sch ''required'' of
        None \<Rightarrow> Inr False
      | Some JNull \<Rightarrow> Inr False
      | Some (JArr xs) \<Rightarrow> Inr (JStr nm \<in> set xs)
      | Some (JStr s) \<Rightarrow> Inr (str_includes s nm)
      | Some v \<Rightarrow> Inl TypeError)"

text \<open>The loop over \<^verbatim>\<open>Object.entries(schema.properties)\<close>, pushing one row per entry.\<close>

fun props_loop :: "json \<Rightarrow> json \<Rightarrow> (string \<times> json) list \<Rightarrow> property list \<Rightarrow> error + property list" where
  "props_loop sch cat [] result = Inr result"
| "props_loop sch cat ((nm, propSchema) # es) result =
     (case required_includes sch nm of
        Inl e \<Rightarrow> Inl e
      | Inr r \<Rightarrow>
          props_loop sch cat es
            (result @ [\<lparr>category = cat, name = nm, schema = propSchema, required = r\<rparr>]))"

text \<open>
  The body of the loop over \<^verbatim>\<open>schema.allOf\<close>: the rows that one branch pushes. The
  recursive call is the parameter \<open>extract\<close>.
\<close>

definition allOf_branch ::
  "(jsval \<Rightarrow> json \<Rightarrow> error + property list) \<Rightarrow> runtime \<Rightarrow> store \<Rightarrow> json \<Rightarrow> json \<Rightarrow> json
     \<Rightarrow> error + property list" where
  "allOf_branch extract rt st sch cat subSchema =
     (case get_prop subSchema ''$ref'' of
        Inl e \<Rightarrow> Inl e
      | Inr None \<Rightarrow> extract (Json subSchema) cat
      | Inr (Some r) \<Rightarrow>
          if truthy r then
            (case resolveRef rt st r sch of
               Inl e \<Rightarrow> Inl e
             | Inr resolved \<Rightarrow>
                 if truthy_v resolved
                 then extract resolved (js_or (named_prop resolved ''title'') cat)
                 else Inr [])
          else extract (Json subSchema) cat)"

fun allOf_loop ::
  "(jsval \<Rightarrow> json \<Rightarrow> error + property list) \<Rightarrow> runtime \<Rightarrow> store \<Rightarrow> json \<Rightarrow> json \<Rightarrow> json list
     \<Rightarrow> property list \<Rightarrow> error + property list" where
  "allOf_loop extract rt st sch cat [] result = Inr result"
| "allOf_loop extract rt st sch cat (subSchema # subs) result =
     (case allOf_branch extract rt st sch cat subSchema of
        Inl e \<Rightarrow> Inl e
      | Inr ps \<Rightarrow> allOf_loop extract rt st sch cat subs (result @ ps))"

text \<open>
  \<^verbatim>\<open>extractProperties(schema, category)\<close>. The first argument is the depth of call stack that
  is left: the source has no guard against a composition that refers back to itself, and
  such a recursion ends in a RangeError. The schema is a parsed value or, when a reference
  has led out of the document, a built-in object, which has neither \<^verbatim>\<open>properties\<close> nor
  \<^verbatim>\<open>allOf\<close>.
\<close>

primrec extractProperties ::
  "nat \<Rightarrow> runtime \<Rightarrow> store \<Rightarrow> jsval \<Rightarrow> json \<Rightarrow> error + property list" where
  "extractProperties 0 rt st v cat = Inl RangeError"
| "extractProperties (Suc depth) rt st v cat =
     (case v of
        Builtin h \<Rightarrow> Inr []
      | Json sch \<Rightarrow>
          (case get_prop sch ''properties'' of
             Inl e \<Rightarrow> Inl e
           | Inr props \<Rightarrow>
               (case (case props of
                        None \<Rightarrow> Inr []
                      | Some ps \<Rightarrow>
                          if truthy ps then props_loop sch cat (entries ps) [] else Inr [])
                of
                  Inl e \<Rightarrow> Inl e
                | Inr result \<Rightarrow>
                    (case own_prop sch ''allOf'' of
                       None \<Rightarrow> Inr result
                     | Some allOf \<Rightarrow>
                         if truthy allOf then
                           (case iterate allOf of
                              Inl e \<Rightarrow> Inl e
                            | Inr subs \<Rightarrow>
                                allOf_loop (extractProperties depth rt st) rt st sch cat subs
                                  result)
                         else Inr result))))"

subsection \<open>getTableData\<close>

record state =
  schemas :: store
  mainSchema :: json
  keywordUsage :: "(string \<times> nat) list"

record tabledata =
  title :: json
  description :: json
  properties :: "property list"

text \<open>
  Lines 126 to 129: \<^verbatim>\<open>mainSchema.items\<close>, replaced by what its \<^verbatim>\<open>$ref\<close> resolves to when
  it has a truthy one. \<^verbatim>\<open>itemSchema?.$ref\<close> reads nothing from null or undefined.
\<close>

definition item_schema :: "runtime \<Rightarrow> store \<Rightarrow> json \<Rightarrow> error + jsval option" where
  "item_schema rt st main =
     (case own_prop main ''items'' of
        None \<Rightarrow> Inr None
      | Some itemSchema \<Rightarrow>
          (case (if itemSchema = JNull then None else own_prop itemSchema ''$ref'') of
             None \<Rightarrow> Inr (Some (Json itemSchema))
           | Some r \<Rightarrow>
               if truthy r then
                 (case resolveRef rt st r main of Inl e \<Rightarrow> Inl e | Inr v \<Rightarrow> Inr (Some v))
               else Inr (Some (Json itemSchema))))"

definition getTableData :: "nat \<Rightarrow> runtime \<Rightarrow> state \<Rightarrow> error + tabledata option" where
  "getTableData depth rt s =
     (if \<not> truthy (mainSchema s) then Inr None
      else
        (case item_schema rt (schemas s) (mainSchema s) of
           Inl e \<Rightarrow> Inl e
         | Inr None \<Rightarrow> Inr None
         | Inr (Some itemSchema) \<Rightarrow>
             if \<not> truthy_v itemSchema then Inr None
             else
               (case extractProperties depth rt (schemas s) itemSchema JNull of
                  Inl e \<Rightarrow> Inl e
                | Inr ps \<Rightarrow>
                    Inr (Some \<lparr>title = js_or (own_prop (mainSchema s) ''title'') (JStr ''Dataset Schema''),
                               description = js_or (own_prop (mainSchema s) ''description'') (JStr []),
                               properties = ps\<rparr>))))"

subsection \<open>collectKeywordUsage\<close>

definition excludedKeywords :: "string list" where
  "excludedKeywords =
     [''$schema'', ''$id'', ''$ref'', ''properties'', ''items'', ''allOf'', ''anyOf'', ''oneOf'',
      ''enumDescriptions'']"

text \<open>\<^verbatim>\<open>keywordUsage.set(keyword, count)\<close>: a key that is there keeps its place.\<close>

fun usage_set :: "string \<Rightarrow> nat \<Rightarrow> (string \<times> nat) list \<Rightarrow> (string \<times> nat) list" where
  "usage_set k c [] = [(k, c)]"
| "usage_set k c ((k', c') # u) = (if k = k' then (k', c) # u else (k', c') # usage_set k c u)"

text \<open>\<^verbatim>\<open>keywordUsage.get(keyword) || 0\<close>\<close>

definition usage_count :: "(string \<times> nat) list \<Rightarrow> string \<Rightarrow> nat" where
  "usage_count u k = (case map_of u k of None \<Rightarrow> 0 | Some c \<Rightarrow> c)"

fun keywords_loop :: "string list \<Rightarrow> (string \<times> nat) list \<Rightarrow> (string \<times> nat) list" where
  "keywords_loop [] u = u"
| "keywords_loop (keyword # ks) u =
     keywords_loop ks
       (if keyword \<notin> set excludedKeywords then usage_set keyword (usage_count u keyword + 1) u
        else u)"

fun usage_loop :: "property list \<Rightarrow> (string \<times> nat) list \<Rightarrow> error + (string \<times> nat) list" where
  "usage_loop [] u = Inr u"
| "usage_loop (p # ps) u =
     (case object_keys (schema p) of
        Inl e \<Rightarrow> Inl e
      | Inr ks \<Rightarrow> usage_loop ps (keywords_loop ks u))"

definition collectKeywordUsage :: "nat \<Rightarrow> runtime \<Rightarrow> state \<Rightarrow> error + state" where
  "collectKeywordUsage depth rt s =
     (case getTableData depth rt s of
        Inl e \<Rightarrow> Inl e
      | Inr data \<Rightarrow>
          (case usage_loop (case data of None \<Rightarrow> [] | Some d \<Rightarrow> properties d) (keywordUsage s) of
             Inl e \<Rightarrow> Inl e
           | Inr u \<Rightarrow> Inr (s\<lparr>keywordUsage := u\<rparr>)))"

subsection \<open>processFiles\<close>

text \<open>
  A file is its name and what \<^verbatim>\<open>JSON.parse\<close> makes of its text: \<open>None\<close> when the text is
  not JSON and the parser raises.
\<close>

type_synonym input_file = "string \<times> json option"

text \<open>\<^verbatim>\<open>schema.type === 'array' && schema.items\<close>, for a schema other than null.\<close>

definition is_main :: "json \<Rightarrow> bool" where
  "is_main sch =
     (own_prop sch ''type'' = Some (JStr ''array'') \<and> truthy_u (own_prop sch ''items''))"

fun load_loop :: "input_file list \<Rightarrow> state \<Rightarrow> error + state" where
  "load_loop [] s = Inr s"
| "load_loop ((file_name, text) # files) s =
     (case text of
        None \<Rightarrow> Inl SyntaxError
      | Some sch \<Rightarrow>
          (case get_prop sch ''$id'' of
             Inl e \<Rightarrow> Inl e
           | Inr i \<Rightarrow>
               load_loop files
                 (let s1 = s\<lparr>schemas := store_set (js_or i (JStr file_name)) sch (schemas s)\<rparr>
                  in if is_main sch then s1\<lparr>mainSchema := sch\<rparr> else s1)))"

text \<open>
  \<^verbatim>\<open>processFiles(files)\<close> returns the new state of the processor and the value returned.
  The state it starts from is cleared first.
\<close>

definition processFiles :: "nat \<Rightarrow> runtime \<Rightarrow> state \<Rightarrow> input_file list \<Rightarrow> error + state \<times> bool" where
  "processFiles depth rt s files =
     (case load_loop files (s\<lparr>schemas := [], mainSchema := JNull, keywordUsage := []\<rparr>) of
        Inl e \<Rightarrow> Inl e
      | Inr s1 \<Rightarrow>
          (let s2 = (if \<not> truthy (mainSchema s1)
                     then (case schemas s1 of [(k, v)] \<Rightarrow> s1\<lparr>mainSchema := v\<rparr> | _ \<Rightarrow> s1)
                     else s1)
           in case (if truthy (mainSchema s2) then collectKeywordUsage depth rt s2 else Inr s2) of
                Inl e \<Rightarrow> Inl e
              | Inr s3 \<Rightarrow> Inr (s3, mainSchema s3 \<noteq> JNull)))"

section \<open>TableRenderer.exportToCSV\<close>










section \<open>Notions of the specification\<close>

text \<open>
  Reading a path of keys from a value, one \<^verbatim>\<open>v[k]\<close> after the other, with no regard to
  what the values are: \<open>Inr None\<close> when a read finds nothing, \<open>Inl\<close> when one raises.
\<close>

fun follow :: "runtime \<Rightarrow> jsval \<Rightarrow> string list \<Rightarrow> error + jsval option" where
  "follow rt v [] = Inr (Some v)"
| "follow rt v (k # ks) =
     (case read_prop rt v k of
        Inl e \<Rightarrow> Inl e
      | Inr None \<Rightarrow> Inr None
      | Inr (Some w) \<Rightarrow> follow rt w ks)"

fun reaches_truthy :: "error + jsval option \<Rightarrow> bool" where
  "reaches_truthy (Inr (Some v)) = truthy_v v"
| "reaches_truthy r = False"

text \<open>A segment of the path at which the walk ends: the keys up to it lead to no truthy value.\<close>

definition dead_end :: "runtime \<Rightarrow> jsval \<Rightarrow> string list \<Rightarrow> bool" where
  "dead_end rt v ks = (ks \<noteq> [] \<and> \<not> reaches_truthy (follow rt v ks))"

text \<open>An identifier of the store matches a reference when one is a suffix of the other.\<close>

fun id_matches :: "string \<Rightarrow> json \<times> json \<Rightarrow> bool" where
  "id_matches ref (JStr i, d) = (suffix i ref \<or> suffix ref i)"
| "id_matches ref (k, d) = False"

fun is_string :: "json \<Rightarrow> bool" where
  "is_string (JStr s) = True"
| "is_string v = False"

text \<open>An entry at which the scan of the store ends: it matches, or its identifier is no string.\<close>

definition ends_scan :: "string \<Rightarrow> json \<times> json \<Rightarrow> bool" where
  "ends_scan ref e = (\<not> is_string (fst e) \<or> id_matches ref e)"

text \<open>
  The name is contained in what the node has under \<^verbatim>\<open>required\<close>: an element of the array
  (for a string, a part of it).
\<close>

definition required_contains :: "json \<Rightarrow> string \<Rightarrow> bool" where
  "required_contains sch nm =
     (case own_prop sch ''required'' of
        Some (JArr xs) \<Rightarrow> JStr nm \<in> set xs
      | Some (JStr s) \<Rightarrow> str_includes s nm
      | _ \<Rightarrow> False)"

text \<open>\<^verbatim>\<open>required\<close> is something that can be searched, or is left out.\<close>

definition required_usable :: "json \<Rightarrow> bool" where
  "required_usable sch =
     (case own_prop sch ''required'' of
        None \<Rightarrow> True
      | Some JNull \<Rightarrow> True
      | Some (JArr xs) \<Rightarrow> True
      | Some (JStr s) \<Rightarrow> True
      | Some v \<Rightarrow> False)"

text \<open>
  The rows of the node's own \<^verbatim>\<open>properties\<close>, one per entry, in the order in which the
  entries are enumerated.
\<close>

definition direct_properties :: "json \<Rightarrow> json \<Rightarrow> property list" where
  "direct_properties sch cat =
     (case own_prop sch ''properties'' of
        None \<Rightarrow> []
      | Some ps \<Rightarrow>
          if truthy ps
          then map (\<lambda>(nm, frag). \<lparr>category = cat, name = nm, schema = frag,
                                    required = required_contains sch nm\<rparr>) (entries ps)
          else [])"

text \<open>The branches of the node's \<^verbatim>\<open>allOf\<close>, in order.\<close>

definition branches :: "json \<Rightarrow> json list" where
  "branches sch =
     (case own_prop sch ''allOf'' of
        None \<Rightarrow> []
      | Some a \<Rightarrow> if truthy a then (case iterate a of Inl e \<Rightarrow> [] | Inr subs \<Rightarrow> subs) else [])"

text \<open>\<^verbatim>\<open>allOf\<close> is left out, falsy, or something that can be iterated.\<close>

definition allOf_usable :: "json \<Rightarrow> bool" where
  "allOf_usable sch =
     (case own_prop sch ''allOf'' of
        None \<Rightarrow> True
      | Some a \<Rightarrow> \<not> truthy a \<or> (case iterate a of Inl e \<Rightarrow> False | Inr subs \<Rightarrow> True))"


text \<open>The documents of the files that parse.\<close>

definition documents :: "input_file list \<Rightarrow> json list" where
  "documents files = List.map_filter snd files"

text \<open>The state of a processor that has been cleared.\<close>

definition cleared :: state where
  "cleared = \<lparr>schemas = [], mainSchema = JNull, keywordUsage = []\<rparr>"

text \<open>The state in which one document is all of the store and the main schema.\<close>

definition single_state :: "string \<Rightarrow> json \<Rightarrow> state" where
  "single_state file_name doc =
     \<lparr>schemas = [(js_or (own_prop doc ''$id'') (JStr file_name), doc)], mainSchema = doc,
      keywordUsage = []\<rparr>"




section \<open>Sample documents\<close>

text \<open>
  A runtime cut down to three entries of the standard library: an object inherits
  \<^verbatim>\<open>constructor\<close>, the function \<^verbatim>\<open>Object\<close>; that function has the name \<^verbatim>\<open>Object\<close>; and, as a
  built-in function, it inherits from \<^verbatim>\<open>Function.prototype\<close> the accessor \<^verbatim>\<open>caller\<close>, whose
  getter raises a TypeError. The samples read no other name that the standard library
  defines. \<open>calm_runtime\<close> is the same without the accessor.
\<close>

fun calm_runtime :: runtime where
  "calm_runtime (Json (JObj kvs)) k =
     (if k = ''constructor'' then Inr (Some (Builtin ''Object'')) else Inr None)"
| "calm_runtime (Builtin h) k =
     (if h = ''Object'' \<and> k = ''name'' then Inr (Some (Json (JStr ''Object''))) else Inr None)"
| "calm_runtime v k = Inr None"

definition sample_runtime :: runtime where
  "sample_runtime v k =
     (if v = Builtin ''Object'' \<and> k = ''caller'' then Inl TypeError else calm_runtime v k)"


text \<open>
  A main schema whose \<^verbatim>\<open>items\<close> is a reference into its own \<^verbatim>\<open>$defs\<close>:
  \<^verbatim>\<open>{"type":"array","items":{"$ref":"#/$defs/Row"},"$defs":{"Row":{"properties":{"x":{"type":"string"}}}}}\<close>
\<close>

definition rowSchema :: json where
  "rowSchema = JObj [(''properties'', JObj [(''x'', JObj [(''type'', JStr ''string'')])])]"

definition pointerSchema :: json where
  "pointerSchema =
     JObj [(''type'', JStr ''array''),
           (''items'', JObj [(''$ref'', JStr ''#/$defs/Row'')]),
           (''$defs'', JObj [(''Row'', rowSchema)])]"

text \<open>A document with a flag that is false.\<close>

definition flagSchema :: json where
  "flagSchema = JObj [(''a'', JObj [(''flag'', JBool False)])]"

text \<open>
  A store of two documents, the first one under an identifier that ends in
  \<^verbatim>\<open>defs.json\<close>.
\<close>

definition defsSchema :: json where
  "defsSchema = JObj [(''$id'', JStr ''http://example.org/defs.json''), (''title'', JStr ''Defs'')]"

definition otherSchema :: json where
  "otherSchema = JObj [(''$id'', JStr ''other.json'')]"

definition twoSchemas :: store where
  "twoSchemas = [(JStr ''http://example.org/defs.json'', defsSchema), (JStr ''other.json'', otherSchema)]"

text \<open>
  A document whose \<^verbatim>\<open>$id\<close> is a number, the store that loading it leaves, and the store
  left by loading it before a file \<^verbatim>\<open>a.json\<close> that has no \<^verbatim>\<open>$id\<close>.
\<close>

definition numberedSchema :: json where
  "numberedSchema = JObj [(''$id'', JNum (Num 5))]"

definition numberedStore :: store where
  "numberedStore = [(JNum (Num 5), numberedSchema)]"

definition plainSchema :: json where
  "plainSchema = JObj [(''title'', JStr ''A'')]"

definition numberedFirstFiles :: "input_file list" where
  "numberedFirstFiles = [(''n.json'', Some numberedSchema), (''a.json'', Some plainSchema)]"

definition numberedFirstStore :: store where
  "numberedFirstStore = [(JNum (Num 5), numberedSchema), (JStr ''a.json'', plainSchema)]"

text \<open>
  A node with two properties of its own and two branches, each of which defines \<^verbatim>\<open>id\<close>
  again: an inline branch, and a reference to a titled definition.
\<close>

definition extraSchema :: json where
  "extraSchema = JObj [(''title'', JStr ''Extra''), (''properties'', JObj [(''id'', JObj [])])]"

definition inlineBranch :: json where
  "inlineBranch = JObj [(''properties'', JObj [(''id'', JObj [(''type'', JStr ''string'')])])]"

definition refBranch :: json where
  "refBranch = JObj [(''$ref'', JStr ''#/$defs/Extra'')]"

definition composedSchema :: json where
  "composedSchema =
     JObj [(''properties'', JObj [(''id'', JObj [(''type'', JStr ''integer'')]),
                                  (''label'', JObj [(''type'', JStr ''string'')])]),
           (''required'', JArr [JStr ''id'']),
           (''allOf'', JArr [inlineBranch, refBranch]),
           (''$defs'', JObj [(''Extra'', extraSchema)])]"

text \<open>
  A node whose properties are written in the order \<^verbatim>\<open>b\<close>, \<^verbatim>\<open>1\<close>, \<^verbatim>\<open>a\<close>, \<^verbatim>\<open>0\<close>, and a node
  whose \<^verbatim>\<open>required\<close> is a number.
\<close>

definition indexKeysNode :: json where
  "indexKeysNode =
     JObj [(''properties'', JObj [(''b'', JObj []), (''1'', JObj []), (''a'', JObj []), (''0'', JObj [])])]"

definition requiredNumberNode :: json where
  "requiredNumberNode =
     JObj [(''properties'', JObj [(''a'', JObj [])]), (''required'', JNum (Num 5))]"

text \<open>A definition whose title is the empty string, and a node that refers to it.\<close>

definition untitledSchema :: json where
  "untitledSchema = JObj [(''title'', JStr []), (''properties'', JObj [(''a'', JObj [])])]"

definition untitledNode :: json where
  "untitledNode =
     JObj [(''allOf'', JArr [JObj [(''$ref'', JStr ''#/d'')]]), (''d'', untitledSchema)]"

text \<open>
  A branch that refers to a document that was not loaded, a branch whose reference is a
  number, and nodes that have them among their branches.
\<close>

definition danglingBranch :: json where
  "danglingBranch = JObj [(''$ref'', JStr ''missing.json#/x'')]"

definition danglingNode :: json where
  "danglingNode = JObj [(''allOf'', JArr [inlineBranch, danglingBranch, inlineBranch])]"

definition numberBranch :: json where
  "numberBranch = JObj [(''$ref'', JNum (Num 5))]"

definition numberRefNode :: json where
  "numberRefNode = JObj [(''allOf'', JArr [inlineBranch, numberBranch])]"

definition danglingItems :: state where
  "danglingItems =
     \<lparr>schemas = [],
      mainSchema = JObj [(''type'', JStr ''array''), (''items'', JObj [(''$ref'', JStr ''#/nowhere'')])],
      keywordUsage = []\<rparr>"







text \<open>
  Two files whose documents have the same \<^verbatim>\<open>$id\<close> and no \<^verbatim>\<open>type\<close>, and two files of type
  array of which the second has \<^verbatim>\<open>items: false\<close>.
\<close>

definition firstShared :: json where
  "firstShared = JObj [(''$id'', JStr ''x'')]"

definition secondShared :: json where
  "secondShared = JObj [(''$id'', JStr ''x''), (''items'', JObj [])]"

definition sharedIdFiles :: "input_file list" where
  "sharedIdFiles = [(''a.json'', Some firstShared), (''b.json'', Some secondShared)]"

definition arrayOfRows :: json where
  "arrayOfRows = JObj [(''type'', JStr ''array''), (''items'', rowSchema)]"

definition arrayOfNothing :: json where
  "arrayOfNothing = JObj [(''type'', JStr ''array''), (''items'', JBool False)]"

definition itemsFalseFiles :: "input_file list" where
  "itemsFalseFiles = [(''a.json'', Some arrayOfRows), (''b.json'', Some arrayOfNothing)]"

text \<open>Two main schemas and a definition, and two files that are no main schema.\<close>

definition threeFiles :: "input_file list" where
  "threeFiles = [(''a.json'', Some arrayOfRows), (''b.json'', Some pointerSchema), (''c.json'', Some defsSchema)]"

definition noMainFiles :: "input_file list" where
  "noMainFiles = [(''c.json'', Some defsSchema), (''d.json'', Some otherSchema)]"

text \<open>A single document without a type, and one in which the fragment of a property is null.\<close>

definition untypedSchema :: json where
  "untypedSchema = JObj [(''items'', rowSchema)]"

definition nullFragmentSchema :: json where
  "nullFragmentSchema = JObj [(''items'', JObj [(''properties'', JObj [(''a'', JNull)])])]"

text \<open>The states in which the processor is left by the sample files.\<close>

definition sharedIdState :: state where
  "sharedIdState =
     \<lparr>schemas = [(JStr ''x'', secondShared)], mainSchema = secondShared, keywordUsage = []\<rparr>"

definition itemsFalseState :: state where
  "itemsFalseState =
     \<lparr>schemas = [(JStr ''a.json'', arrayOfRows), (JStr ''b.json'', arrayOfNothing)],
      mainSchema = arrayOfRows, keywordUsage = [(''type'', 1)]\<rparr>"

definition threeLoaded :: state where
  "threeLoaded =
     \<lparr>schemas = [(JStr ''a.json'', arrayOfRows), (JStr ''b.json'', pointerSchema),
                 (JStr ''http://example.org/defs.json'', defsSchema)],
      mainSchema = pointerSchema, keywordUsage = []\<rparr>"

definition noMainLoaded :: state where
  "noMainLoaded = \<lparr>schemas = twoSchemas, mainSchema = JNull, keywordUsage = []\<rparr>"





section \<open>Auxiliary facts\<close>

lemma endsWith_suffix: "endsWith s t \<longleftrightarrow> suffix t s"
  unfolding endsWith_def
  by (metis suffix_drop suffix_length_le suffix_def append_eq_conv_conj length_append
        add_diff_cancel_right')

lemma store_get_map_of: "store_get st (JStr r) = map_of st (JStr r)"
  by (induction st) auto

lemma scan_find:
  "scan st ref =
     (case find (ends_scan ref) st of
        None \<Rightarrow> Inr None
      | Some (i, d) \<Rightarrow> if is_string i then Inr (Some d) else Inl TypeError)"
proof (induction st)
  case Nil
  then show ?case by simp
next
  case (Cons e st)
  obtain k d where e: "e = (k, d)" by (cases e)
  show ?case
    by (cases k) (simp_all add: e Cons.IH ends_scan_def endsWith_suffix)
qed

lemma find_None_map_of:
  "find (ends_scan ref) st = None \<Longrightarrow> map_of st (JStr ref) = None"
  by (induction st) (auto simp: ends_scan_def split: if_splits)

lemma find_map_comp: "find P (map f xs) = map_option f (find (P \<circ> f) xs)"
  by (induction xs) auto

lemma find_prefixes_always: "(\<And>p. P p) \<Longrightarrow> find P (prefixes ks) = Some []"
  by (cases ks) simp_all

lemma find_prefixes_Nil: "P [] \<Longrightarrow> find P (prefixes ks) = Some []"
  by (cases ks) simp_all

lemma walk_follow:
  "walk rt v path =
     (case find (dead_end rt v) (prefixes path) of
        None \<Rightarrow> (case follow rt v path of Inr (Some w) \<Rightarrow> Inr w | _ \<Rightarrow> Inr (Json JNull))
      | Some ks \<Rightarrow> (case follow rt v ks of Inl e \<Rightarrow> Inl e | _ \<Rightarrow> Inr (Json JNull)))"
proof (induction path arbitrary: v)
  case Nil
  then show ?case by (simp add: dead_end_def)
next
  case (Cons k ks)
  have split: "find (dead_end rt v) (prefixes (k # ks)) =
      map_option ((#) k) (find (dead_end rt v \<circ> (#) k) (prefixes ks))"
    by (simp add: dead_end_def find_map_comp)
  show ?case
  proof (cases "read_prop rt v k")
    case (Inl e)
    then have "find (dead_end rt v \<circ> (#) k) (prefixes ks) = Some []"
      by (intro find_prefixes_always) (simp add: dead_end_def)
    with Inl show ?thesis unfolding split by simp
  next
    case (Inr r)
    show ?thesis
    proof (cases r)
      case None
      with Inr have "find (dead_end rt v \<circ> (#) k) (prefixes ks) = Some []"
        by (intro find_prefixes_always) (simp add: dead_end_def)
      with Inr None show ?thesis unfolding split by simp
    next
      case (Some w)
      show ?thesis
      proof (cases "truthy_v w")
        case False
        with Inr Some have "find (dead_end rt v \<circ> (#) k) (prefixes ks) = Some []"
          by (intro find_prefixes_Nil) (simp add: dead_end_def)
        with Inr Some False show ?thesis unfolding split by simp
      next
        case True
        have "(dead_end rt v \<circ> (#) k) = dead_end rt w"
        proof
          fix p
          show "(dead_end rt v \<circ> (#) k) p = dead_end rt w p"
            using Inr Some True by (cases p) (simp_all add: dead_end_def)
        qed
        then have f: "find (dead_end rt v) (prefixes (k # ks)) =
            map_option ((#) k) (find (dead_end rt w) (prefixes ks))"
          unfolding split by simp
        have w: "walk rt v (k # ks) = walk rt w ks"
          using Inr Some True by simp
        show ?thesis
          unfolding w f Cons.IH[of w]
          using Inr Some by (cases "find (dead_end rt w) (prefixes ks)") simp_all
      qed
    qed
  qed
qed

lemma walk_raises:
  "walk rt v path = Inl e \<Longrightarrow>
   (v = Json JNull \<and> e = TypeError) \<or>
   (\<exists>ks k w. prefix (ks @ [k]) path \<and> follow rt v ks = Inr (Some w) \<and> w \<noteq> Json JNull \<and>
              rt w k = Inl e)"
proof (induction path arbitrary: v)
  case Nil
  then show ?case by simp
next
  case (Cons k ks)
  show ?case
  proof (cases "read_prop rt v k")
    case (Inl e')
    with Cons.prems have e: "e' = e" by simp
    show ?thesis
    proof (cases "v = Json JNull")
      case True
      with Inl e show ?thesis by simp
    next
      case False
      with Inl e have "rt v k = Inl e"
        by (cases v) (auto split: option.splits if_splits)
      with False have "prefix ([] @ [k]) (k # ks) \<and> follow rt v [] = Inr (Some v) \<and> v \<noteq> Json JNull \<and>
          rt v k = Inl e"
        by simp
      then show ?thesis by blast
    qed
  next
    case (Inr r)
    with Cons.prems obtain w where r: "r = Some w" and t: "truthy_v w" and w: "walk rt w ks = Inl e"
      by (cases r) (auto split: if_splits)
    from t have "w \<noteq> Json JNull" by auto
    with Cons.IH[OF w] obtain ks' k' w' where p: "prefix (ks' @ [k']) ks"
      and f: "follow rt w ks' = Inr (Some w')" and n: "w' \<noteq> Json JNull" and e: "rt w' k' = Inl e"
      by blast
    from p f Inr r have "prefix ((k # ks') @ [k']) (k # ks) \<and> follow rt v (k # ks') = Inr (Some w')"
      by simp
    with n e show ?thesis by blast
  qed
qed

lemma prefix_snoc_two:
  "prefix (ks @ [k]) [a, b] \<longleftrightarrow> ks = [] \<and> k = a \<or> ks = [a] \<and> k = b"
  by (cases ks; cases "tl ks") (auto simp: prefix_Cons)

lemma required_includes_eq:
  "required_includes sch nm =
     (if required_usable sch then Inr (required_contains sch nm) else Inl TypeError)"
  by (simp add: required_includes_def required_usable_def required_contains_def
           split: option.splits json.splits)

lemma props_loop_eq:
  "props_loop sch cat es acc =
     (if es \<noteq> [] \<and> \<not> required_usable sch then Inl TypeError
      else Inr (acc @ map (\<lambda>(nm, frag). \<lparr>category = cat, name = nm, schema = frag,
                                           required = required_contains sch nm\<rparr>) es))"
  by (induction es arbitrary: acc) (auto simp: required_includes_eq)

lemma allOf_loop_Inr:
  "allOf_loop ext rt st sch cat subs acc = Inr r \<longleftrightarrow>
     (\<exists>rs. list_all2 (\<lambda>sub ps. allOf_branch ext rt st sch cat sub = Inr ps) subs rs
           \<and> r = acc @ concat rs)"
proof (induction subs arbitrary: acc)
  case Nil
  then show ?case by auto
next
  case (Cons sub subs)
  show ?case
  proof (cases "allOf_branch ext rt st sch cat sub")
    case (Inl e)
    then show ?thesis by (simp add: list_all2_Cons1)
  next
    case (Inr ps)
    then show ?thesis by (auto simp: Cons.IH list_all2_Cons1)
  qed
qed

lemma js_or_falsy: "\<not> truthy_u x \<Longrightarrow> js_or x b = b"
  by (cases x) auto

lemma extract_Suc:
  "extractProperties (Suc depth) rt st (Json sch) cat = Inr result \<longleftrightarrow>
      sch \<noteq> JNull \<and> (direct_properties sch cat \<noteq> [] \<longrightarrow> required_usable sch) \<and> allOf_usable sch \<and>
      (\<exists>rs. list_all2 (\<lambda>sub ps. allOf_branch (extractProperties depth rt st) rt st sch cat sub = Inr ps)
              (branches sch) rs
            \<and> result = direct_properties sch cat @ concat rs)"
  by (auto simp: get_prop_def props_loop_eq allOf_loop_Inr direct_properties_def branches_def
        allOf_usable_def split: option.splits sum.splits)

lemma category_direct_properties: "p \<in> set (direct_properties sch cat) \<Longrightarrow> category p = cat"
  by (auto simp: direct_properties_def split: option.splits if_splits)

lemma allOf_branch_mono:
  assumes "\<And>x c ps. ext x c = Inr ps \<Longrightarrow> ext' x c = Inr ps"
    and "allOf_branch ext rt st sch cat sub = Inr r"
  shows "allOf_branch ext' rt st sch cat sub = Inr r"
  using assms(2)
  by (auto simp: allOf_branch_def split: sum.splits option.splits if_splits intro: assms(1))

lemma allOf_loop_mono:
  assumes "\<And>x c ps. ext x c = Inr ps \<Longrightarrow> ext' x c = Inr ps"
    and "allOf_loop ext rt st sch cat subs acc = Inr r"
  shows "allOf_loop ext' rt st sch cat subs acc = Inr r"
  using assms(2)
proof (induction subs arbitrary: acc)
  case Nil
  then show ?case by simp
next
  case (Cons sub subs)
  then show ?case
    by (auto split: sum.splits dest: allOf_branch_mono[OF assms(1), rotated])
qed

lemma extractProperties_Suc_mono:
  "extractProperties depth rt st v cat = Inr r \<Longrightarrow> extractProperties (Suc depth) rt st v cat = Inr r"
proof (induction depth arbitrary: v cat r)
  case 0
  then show ?case by simp
next
  case (Suc depth)
  have m: "\<And>x c ps. extractProperties depth rt st x c = Inr ps \<Longrightarrow>
      extractProperties (Suc depth) rt st x c = Inr ps"
    by (rule Suc.IH)
  from Suc.prems show ?case
    apply (subst extractProperties.simps(2))
    apply (subst (asm) extractProperties.simps(2))
    apply (auto split: jsval.splits sum.splits option.splits if_splits
        dest: allOf_loop_mono[OF m, rotated])
    done
qed

lemma extractProperties_depth_mono:
  "extractProperties depth rt st v cat = Inr r \<Longrightarrow>
   extractProperties (depth + k) rt st v cat = Inr r"
  by (induction k) (auto dest: extractProperties_Suc_mono)

lemma branches_usable: "branches sch \<noteq> [] \<Longrightarrow> sch \<noteq> JNull \<and> allOf_usable sch"
  by (auto simp: branches_def allOf_usable_def split: option.splits if_splits sum.splits)

lemma define_member_new: "k \<notin> fst ` set ms \<Longrightarrow> define_member k v ms = ms @ [(k, v)]"
  by (induction ms) auto

lemma define_members_distinct:
  "distinct (map fst (ms @ kvs)) \<Longrightarrow> define_members kvs ms = ms @ kvs"
proof (induction kvs arbitrary: ms)
  case Nil
  then show ?case by simp
next
  case (Cons m kvs)
  obtain k v where m: "m = (k, v)" by (cases m)
  from Cons.prems have n: "k \<notin> fst ` set ms" by (auto simp: m)
  from Cons.prems have "distinct (map fst ((ms @ [(k, v)]) @ kvs))" by (simp add: m)
  from Cons.IH[OF this] show ?case by (simp add: m define_member_new[OF n])
qed

lemma members_distinct: "distinct (map fst kvs) \<Longrightarrow> members kvs = kvs"
  using define_members_distinct[of "[]" kvs] by (simp add: members_def)

lemma entries_insertion_order:
  assumes "distinct (map fst kvs)" and "\<forall>k\<in>set (map fst kvs). array_index k = None"
  shows "entries (JObj kvs) = kvs"
proof -
  from assms(2) have a: "filter (\<lambda>m. array_index (fst m) \<noteq> None) kvs = []"
    by (auto simp: filter_empty_conv)
  from assms(2) have b: "filter (\<lambda>m. array_index (fst m) = None) kvs = kvs"
    by (auto simp: filter_id_conv)
  show ?thesis unfolding entries.simps members_distinct[OF assms(1)] a b by simp
qed

lemma direct_properties_insertion_order:
  assumes "own_prop sch ''properties'' = Some (JObj kvs)"
    and "distinct (map fst kvs)" and "\<forall>k\<in>set (map fst kvs). array_index k = None"
  shows "direct_properties sch cat =
     map (\<lambda>(nm, frag). \<lparr>category = cat, name = nm, schema = frag,
                          required = required_contains sch nm\<rparr>) kvs"
  using assms(1) entries_insertion_order[OF assms(2,3)] by (simp add: direct_properties_def)

lemma index_order_value: "array_index (fst m) \<noteq> None \<Longrightarrow> index_order m = decimal_value (fst m)"
  by (auto simp: index_order_def array_index_def split: if_splits)

lemma filter_map_fst_all: "\<forall>m\<in>set xs. P (fst m) \<Longrightarrow> filter P (map fst xs) = map fst xs"
  by (induction xs) auto

lemma filter_map_fst_none: "\<forall>m\<in>set xs. \<not> P (fst m) \<Longrightarrow> filter P (map fst xs) = []"
  by (induction xs) auto

lemma entries_names:
  assumes "distinct (map fst kvs)"
  shows "filter (\<lambda>k. array_index k \<noteq> None) (map fst (entries (JObj kvs))) =
           map fst (sort_key index_order (filter (\<lambda>m. array_index (fst m) \<noteq> None) kvs))"
    and "filter (\<lambda>k. array_index k = None) (map fst (entries (JObj kvs))) =
           filter (\<lambda>k. array_index k = None) (map fst kvs)"
    and "sorted (map decimal_value (filter (\<lambda>k. array_index k \<noteq> None) (map fst (entries (JObj kvs)))))"
    and "set (entries (JObj kvs)) = set kvs"
    and "length (entries (JObj kvs)) = length kvs"
proof -
  let ?S = "sort_key index_order (filter (\<lambda>m. array_index (fst m) \<noteq> None) kvs)"
  let ?R = "filter (\<lambda>m. array_index (fst m) = None) kvs"
  have e: "entries (JObj kvs) = ?S @ ?R"
    by (simp add: members_distinct[OF assms])
  have s: "\<forall>m\<in>set ?S. array_index (fst m) \<noteq> None" by simp
  have r: "\<forall>m\<in>set ?R. \<not> array_index (fst m) \<noteq> None" by simp
  have s': "\<forall>m\<in>set ?S. \<not> array_index (fst m) = None" by simp
  have r': "\<forall>m\<in>set ?R. array_index (fst m) = None" by simp
  have gr: "map fst ?R = filter (\<lambda>k. array_index k = None) (map fst kvs)"
    by (simp add: filter_map comp_def)
  show 1: "filter (\<lambda>k. array_index k \<noteq> None) (map fst (entries (JObj kvs))) = map fst ?S"
    unfolding e map_append filter_append
      filter_map_fst_all[of ?S "\<lambda>k. array_index k \<noteq> None", OF s]
      filter_map_fst_none[of ?R "\<lambda>k. array_index k \<noteq> None", OF r]
    by simp
  show "filter (\<lambda>k. array_index k = None) (map fst (entries (JObj kvs))) =
           filter (\<lambda>k. array_index k = None) (map fst kvs)"
    unfolding e map_append filter_append
      filter_map_fst_none[of ?S "\<lambda>k. array_index k = None", OF s']
      filter_map_fst_all[of ?R "\<lambda>k. array_index k = None", OF r']
    by (simp only: append_Nil gr)
  have "map decimal_value (map fst ?S) = map index_order ?S"
    using s by (simp add: index_order_value)
  then show "sorted (map decimal_value (filter (\<lambda>k. array_index k \<noteq> None) (map fst (entries (JObj kvs)))))"
    unfolding 1 by (simp only: sorted_sort_key)
  show "set (entries (JObj kvs)) = set kvs"
    unfolding e by auto
  have "length ?S + length ?R = length kvs"
    using sum_length_filter_compl[of "\<lambda>m. array_index (fst m) \<noteq> None" kvs] by simp
  then show "length (entries (JObj kvs)) = length kvs"
    unfolding e by simp
qed

lemma direct_properties_entries:
  "own_prop sch ''properties'' = Some (JObj kvs) \<Longrightarrow>
   map name (direct_properties sch cat) = map fst (entries (JObj kvs)) \<and>
   map (\<lambda>p. (name p, schema p)) (direct_properties sch cat) = entries (JObj kvs) \<and>
   (\<forall>p\<in>set (direct_properties sch cat).
      category p = cat \<and> required p = required_contains sch (name p))"
  by (auto simp: direct_properties_def comp_def case_prod_beta simp del: entries.simps)

lemma direct_properties_order:
  assumes "own_prop sch ''properties'' = Some (JObj kvs)" and "distinct (map fst kvs)"
  shows "map name (direct_properties sch cat) =
           filter (\<lambda>k. array_index k \<noteq> None) (map name (direct_properties sch cat)) @
           filter (\<lambda>k. array_index k = None) (map fst kvs)"
    and "sorted (map decimal_value
           (filter (\<lambda>k. array_index k \<noteq> None) (map name (direct_properties sch cat))))"
    and "set (map (\<lambda>p. (name p, schema p)) (direct_properties sch cat)) = set kvs"
    and "length (direct_properties sch cat) = length kvs"
proof -
  note d = direct_properties_entries[OF assms(1), of cat]
  note n = d[THEN conjunct1]
  note e = entries_names[OF assms(2)]
  have "map fst (entries (JObj kvs)) =
      filter (\<lambda>k. array_index k \<noteq> None) (map fst (entries (JObj kvs))) @
      filter (\<lambda>k. array_index k = None) (map fst (entries (JObj kvs)))"
    unfolding e(1) by (simp add: members_distinct[OF assms(2)] filter_map comp_def)
  then show "map name (direct_properties sch cat) =
           filter (\<lambda>k. array_index k \<noteq> None) (map name (direct_properties sch cat)) @
           filter (\<lambda>k. array_index k = None) (map fst kvs)"
    unfolding n e(2) .
  show "sorted (map decimal_value
           (filter (\<lambda>k. array_index k \<noteq> None) (map name (direct_properties sch cat))))"
    unfolding n by (rule e(3))
  show "set (map (\<lambda>p. (name p, schema p)) (direct_properties sch cat)) = set kvs"
    unfolding d[THEN conjunct2, THEN conjunct1] by (rule e(4))
  have "length (direct_properties sch cat) = length (map name (direct_properties sch cat))" by simp
  also have "\<dots> = length kvs" unfolding n using e(5) by simp
  finally show "length (direct_properties sch cat) = length kvs" .
qed
















lemma cleared_state: "s\<lparr>schemas := [], mainSchema := JNull, keywordUsage := []\<rparr> = cleared"
  by (simp add: cleared_def)

lemma is_main_truthy: "is_main d \<Longrightarrow> truthy d"
  by (cases d) (auto simp: is_main_def)

lemma documents_Cons: "documents ((n, Some d) # files) = d # documents files"
  by (simp add: documents_def map_filter_simps)

lemma load_loop_main:
  "load_loop files s = Inr s' \<Longrightarrow>
     mainSchema s' = (if filter is_main (documents files) = [] then mainSchema s
                      else last (filter is_main (documents files))) \<and>
     keywordUsage s' = keywordUsage s"
proof (induction files arbitrary: s)
  case Nil
  then show ?case by (simp add: documents_def map_filter_simps)
next
  case (Cons f files)
  obtain n t where f: "f = (n, t)" by (cases f)
  from Cons.prems f obtain d where t: "t = Some d" by (cases t) auto
  from Cons.prems f t have d: "d \<noteq> JNull" by (auto simp: get_prop_def split: if_splits)
  let ?s1 = "s\<lparr>schemas := store_set (js_or (own_prop d ''$id'') (JStr n)) d (schemas s)\<rparr>"
  let ?s2 = "if is_main d then ?s1\<lparr>mainSchema := d\<rparr> else ?s1"
  from Cons.prems have l: "load_loop files ?s2 = Inr s'"
    by (simp add: f t d get_prop_def Let_def)
  from Cons.IH[OF l] show ?case
    by (auto simp: f t documents_Cons)
qed

lemma getTableData_no_main: "\<not> truthy (mainSchema s) \<Longrightarrow> getTableData depth rt s = Inr None"
  by (simp add: getTableData_def)

lemma collectKeywordUsage_main:
  "collectKeywordUsage depth rt s = Inr s' \<Longrightarrow> mainSchema s' = mainSchema s \<and> schemas s' = schemas s"
  by (auto simp: collectKeywordUsage_def split: sum.splits)

lemma load_single:
  "doc \<noteq> JNull \<Longrightarrow> \<not> is_main doc \<Longrightarrow>
   load_loop [(n, Some doc)] cleared =
     Inr \<lparr>schemas = [(js_or (own_prop doc ''$id'') (JStr n), doc)], mainSchema = JNull,
          keywordUsage = []\<rparr>"
  by (simp add: get_prop_def cleared_def)

lemma item_schema_falsy:
  "\<not> truthy_u (own_prop main ''items'') \<Longrightarrow>
   item_schema rt st main = Inr None \<or> (\<exists>v. item_schema rt st main = Inr (Some v) \<and> \<not> truthy_v v)"
  by (cases "own_prop main ''items''"; cases "the (own_prop main ''items'')")
     (auto simp: item_schema_def)

lemma collect_no_items:
  "\<not> truthy_u (own_prop (mainSchema s) ''items'') \<Longrightarrow> keywordUsage s = [] \<Longrightarrow>
   collectKeywordUsage depth rt s = Inr s"
  using item_schema_falsy[of "mainSchema s" rt "schemas s"]
  by (auto simp: collectKeywordUsage_def getTableData_def)










section \<open>The reference resolver\<close>

text \<open>
  C4, as stated: for every reference that starts with \<^verbatim>\<open>#\<close> and every base
  document, \<^verbatim>\<open>resolveRef\<close> walks the base along the path of keys and returns
  null as soon as a segment is missing or holds a falsy value, and otherwise the value at the end of
  the path. On the base null the first read raises a TypeError. And a segment that a value does not
  own is read from what the value inherits: on the empty object the segments of
  \<^verbatim>\<open>#/constructor/name\<close> are not missing, and the walk returns the string
  \<^verbatim>\<open>Object\<close>.
\<close>

theorem base_null_raises:
  "resolveRef sample_runtime [] (JStr ''#/x/y'') JNull = Inl TypeError \<and>
   own_prop (JObj []) ''constructor'' = None \<and>
   resolveRef sample_runtime [] (JStr ''#/constructor/name'') (JObj []) = Inr (Json (JStr ''Object''))"
  by code_simp

text \<open>
  C4, amended: for a reference that starts with \<^verbatim>\<open>#\<close>,
  \<^verbatim>\<open>resolveRef\<close> reads \<^verbatim>\<open>current[segment]\<close>, an own
  property or else an inherited one, along the path that \<^verbatim>\<open>split('/')\<close> makes
  of the reference without its first two characters. At the first segment of the path at which the
  read raises, finds nothing or finds a falsy value, it stops: it raises what the read raised (a
  TypeError on the base null) and returns null otherwise. When the path has no such segment, it
  returns the value at the end of the path.
\<close>

theorem resolveRef_internal_pointer:
  assumes "startsWith_hash ref"
  shows "resolveRef rt st (JStr ref) baseSchema =
           (let path = split_on CHR ''/'' (drop 2 ref)
            in case find (dead_end rt (Json baseSchema)) (prefixes path) of
                 None \<Rightarrow>
                   (case follow rt (Json baseSchema) path of
                      Inr (Some v) \<Rightarrow> Inr v
                    | _ \<Rightarrow> Inr (Json JNull))
               | Some ks \<Rightarrow>
                   (case follow rt (Json baseSchema) ks of
                      Inl e \<Rightarrow> Inl e
                    | _ \<Rightarrow> Inr (Json JNull)))"
  using assms by (simp add: walk_follow Let_def)

theorem resolveRef_internal_pointer_witness:
  "startsWith_hash ''#/$defs/Row'' \<and>
   resolveRef sample_runtime [] (JStr ''#/$defs/Row'') pointerSchema = Inr (Json rowSchema) \<and>
   startsWith_hash ''#/a/flag/x'' \<and>
   follow sample_runtime (Json flagSchema) [''a'', ''flag''] = Inr (Some (Json (JBool False))) \<and>
   resolveRef sample_runtime [] (JStr ''#/a/flag/x'') flagSchema = Inr (Json JNull)"
proof -
  have h1: "startsWith_hash ''#/$defs/Row''" by simp
  have h2: "startsWith_hash ''#/a/flag/x''" by simp
  have e1: "(let path = split_on CHR ''/'' (drop 2 ''#/$defs/Row'')
            in case find (dead_end sample_runtime (Json pointerSchema)) (prefixes path) of
                 None \<Rightarrow>
                   (case follow sample_runtime (Json pointerSchema) path of
                      Inr (Some v) \<Rightarrow> Inr v
                    | _ \<Rightarrow> Inr (Json JNull))
               | Some ks \<Rightarrow>
                   (case follow sample_runtime (Json pointerSchema) ks of
                      Inl e \<Rightarrow> Inl e
                    | _ \<Rightarrow> Inr (Json JNull))) = Inr (Json rowSchema)"
    by code_simp
  have e2: "(let path = split_on CHR ''/'' (drop 2 ''#/a/flag/x'')
            in case find (dead_end sample_runtime (Json flagSchema)) (prefixes path) of
                 None \<Rightarrow>
                   (case follow sample_runtime (Json flagSchema) path of
                      Inr (Some v) \<Rightarrow> Inr v
                    | _ \<Rightarrow> Inr (Json JNull))
               | Some ks \<Rightarrow>
                   (case follow sample_runtime (Json flagSchema) ks of
                      Inl e \<Rightarrow> Inl e
                    | _ \<Rightarrow> Inr (Json JNull))) = Inr (Json JNull)"
    by code_simp
  have f: "follow sample_runtime (Json flagSchema) [''a'', ''flag''] = Inr (Some (Json (JBool False)))"
    by code_simp
  from resolveRef_internal_pointer[OF h1, of sample_runtime "[]" pointerSchema] e1
  have a: "resolveRef sample_runtime [] (JStr ''#/$defs/Row'') pointerSchema = Inr (Json rowSchema)"
    by simp
  from resolveRef_internal_pointer[OF h2, of sample_runtime "[]" flagSchema] e2
  have b: "resolveRef sample_runtime [] (JStr ''#/a/flag/x'') flagSchema = Inr (Json JNull)"
    by simp
  from h1 h2 a b f show ?thesis by blast
qed

text \<open>
  C5, as stated: for every reference that does not start with \<^verbatim>\<open>#\<close>,
  \<^verbatim>\<open>resolveRef\<close> returns the document of the first identifier of the store,
  in insertion order, that is a suffix of the reference or has it as a suffix, and otherwise what
  the exact lookup of the reference finds, or null. An identifier is the
  \<^verbatim>\<open>$id\<close> of a document, any truthy value: a document with
  \<^verbatim>\<open>"$id": 5\<close> is stored under the number 5, which has no
  \<^verbatim>\<open>endsWith\<close>, and the scan raises a TypeError when it reaches it, here
  before the identifier \<^verbatim>\<open>a.json\<close>, which is the reference.
\<close>

theorem numbered_id_ends_scan:
  "load_loop numberedFirstFiles cleared =
     Inr \<lparr>schemas = numberedFirstStore, mainSchema = JNull, keywordUsage = []\<rparr> \<and>
   \<not> startsWith_hash ''a.json'' \<and>
   map_of numberedFirstStore (JStr ''a.json'') = Some plainSchema \<and>
   resolveRef sample_runtime numberedFirstStore (JStr ''a.json'') numberedSchema = Inl TypeError"
  by code_simp

text \<open>
  C5, amended: for a reference that does not start with \<^verbatim>\<open>#\<close>, the scan goes
  through the entries of the store in insertion order and ends at the first entry whose identifier
  is not a string, where \<^verbatim>\<open>resolveRef\<close> raises a TypeError, or whose
  identifier is a suffix of the reference or has it as a suffix, whose document
  \<^verbatim>\<open>resolveRef\<close> returns. When the scan ends at no entry,
  \<^verbatim>\<open>resolveRef\<close> returns what the store holds under the reference as a key,
  and null when it holds nothing.
\<close>

theorem resolveRef_external_scan:
  assumes "\<not> startsWith_hash ref"
  shows "resolveRef rt st (JStr ref) baseSchema =
           (case find (ends_scan ref) st of
              None \<Rightarrow> Inr (Json (case map_of st (JStr ref) of Some d \<Rightarrow> d | None \<Rightarrow> JNull))
            | Some (i, d) \<Rightarrow> if is_string i then Inr (Json d) else Inl TypeError)"
  using assms
  by (auto simp: scan_find store_get_map_of find_None_map_of split: option.splits)

theorem resolveRef_external_scan_witness:
  "\<not> startsWith_hash ''defs.json'' \<and>
   resolveRef sample_runtime twoSchemas (JStr ''defs.json'') otherSchema = Inr (Json defsSchema) \<and>
   \<not> startsWith_hash ''missing.json'' \<and>
   resolveRef sample_runtime twoSchemas (JStr ''missing.json'') otherSchema = Inr (Json JNull)"
proof -
  have h1: "\<not> startsWith_hash ''defs.json''" by simp
  have h2: "\<not> startsWith_hash ''missing.json''" by simp
  have e1: "(case find (ends_scan ''defs.json'') twoSchemas of
              None \<Rightarrow> Inr (Json (case map_of twoSchemas (JStr ''defs.json'') of Some d \<Rightarrow> d | None \<Rightarrow> JNull))
            | Some (i, d) \<Rightarrow> if is_string i then Inr (Json d) else Inl TypeError)
        = Inr (Json defsSchema)"
    by code_simp
  have e2: "(case find (ends_scan ''missing.json'') twoSchemas of
              None \<Rightarrow> Inr (Json (case map_of twoSchemas (JStr ''missing.json'') of Some d \<Rightarrow> d | None \<Rightarrow> JNull))
            | Some (i, d) \<Rightarrow> if is_string i then Inr (Json d) else Inl TypeError)
        = Inr (Json JNull)"
    by code_simp
  from resolveRef_external_scan[OF h1, of sample_runtime twoSchemas otherSchema] e1
  have a: "resolveRef sample_runtime twoSchemas (JStr ''defs.json'') otherSchema = Inr (Json defsSchema)"
    by simp
  from resolveRef_external_scan[OF h2, of sample_runtime twoSchemas otherSchema] e2
  have b: "resolveRef sample_runtime twoSchemas (JStr ''missing.json'') otherSchema = Inr (Json JNull)"
    by simp
  from h1 h2 a b show ?thesis by blast
qed

text \<open>
  C10, as stated: \<^verbatim>\<open>resolveRef\<close> returns a schema fragment, a document or
  null and never raises, for every reference string and every base document, any JSON value. It
  raises a TypeError on an internal reference into the base null, whose first step reads a property
  of null, and on an external reference when the scan reaches an identifier that is not a string. On
  the empty object the reference \<^verbatim>\<open>#/constructor\<close> returns the function
  \<^verbatim>\<open>Object\<close>, which is neither a fragment of a schema nor null, and
  \<^verbatim>\<open>#/constructor/caller\<close> raises the TypeError of the getter of that
  accessor.
\<close>

theorem resolveRef_raises:
  "resolveRef sample_runtime [] (JStr ''#/a'') JNull = Inl TypeError \<and>
   load_loop [(''n.json'', Some numberedSchema)] cleared =
     Inr \<lparr>schemas = numberedStore, mainSchema = JNull, keywordUsage = []\<rparr> \<and>
   resolveRef sample_runtime numberedStore (JStr ''a.json'') numberedSchema = Inl TypeError \<and>
   resolveRef sample_runtime [] (JStr ''#/constructor'') (JObj []) = Inr (Builtin ''Object'') \<and>
   resolveRef sample_runtime [] (JStr ''#/constructor/caller'') (JObj []) = Inl TypeError"
  by code_simp

text \<open>
  C10, amended: for every reference string, \<^verbatim>\<open>resolveRef\<close> returns or raises,
  and it raises in three cases only: a TypeError on an internal reference into the base null; on an
  internal reference, what the read of a segment raised at a value on the path that inherits the
  segment through an accessor; a TypeError on an external reference when an identifier of the store
  is not a string. It returns (a fragment of the base, a value that the fragments inherit, a stored
  document, or null) whenever the base of an internal reference is not null and no such read along
  the path raises, and whenever the identifiers of the store scanned for an external reference are
  all strings.
\<close>

theorem resolveRef_returns:
  "(resolveRef rt st (JStr ref) baseSchema = Inl e \<longrightarrow>
      (startsWith_hash ref \<and> baseSchema = JNull \<and> e = TypeError) \<or>
      (startsWith_hash ref \<and>
       (\<exists>ks k w. prefix (ks @ [k]) (split_on CHR ''/'' (drop 2 ref)) \<and>
                  follow rt (Json baseSchema) ks = Inr (Some w) \<and> w \<noteq> Json JNull \<and> rt w k = Inl e)) \<or>
      (\<not> startsWith_hash ref \<and> e = TypeError \<and> (\<exists>i\<in>fst ` set st. \<not> is_string i)))
   \<and> ((startsWith_hash ref \<longrightarrow>
          baseSchema \<noteq> JNull \<and>
          (\<forall>ks k w e'. prefix (ks @ [k]) (split_on CHR ''/'' (drop 2 ref)) \<and>
                       follow rt (Json baseSchema) ks = Inr (Some w) \<longrightarrow> rt w k \<noteq> Inl e')) \<and>
       (\<not> startsWith_hash ref \<longrightarrow> (\<forall>i\<in>fst ` set st. is_string i)) \<longrightarrow>
         (\<exists>v. resolveRef rt st (JStr ref) baseSchema = Inr v))"
proof -
  let ?path = "split_on CHR ''/'' (drop 2 ref)"
  have raises: "(startsWith_hash ref \<and> baseSchema = JNull \<and> e = TypeError) \<or>
      (startsWith_hash ref \<and>
       (\<exists>ks k w. prefix (ks @ [k]) ?path \<and>
                  follow rt (Json baseSchema) ks = Inr (Some w) \<and> w \<noteq> Json JNull \<and> rt w k = Inl e)) \<or>
      (\<not> startsWith_hash ref \<and> e = TypeError \<and> (\<exists>i\<in>fst ` set st. \<not> is_string i))"
    if r: "resolveRef rt st (JStr ref) baseSchema = Inl e" for e
  proof (cases "startsWith_hash ref")
    case True
    with r have "walk rt (Json baseSchema) ?path = Inl e" by simp
    from walk_raises[OF this] True show ?thesis by auto
  next
    case False
    with r obtain i d where f: "find (ends_scan ref) st = Some (i, d)" and i: "\<not> is_string i"
      and e: "e = TypeError"
      by (auto simp: scan_find split: option.splits if_splits)
    from f have "(i, d) \<in> set st" by (auto simp: find_Some_iff)
    then have "i \<in> fst ` set st" by force
    with False i e show ?thesis by blast
  qed
  have returns: "\<exists>v. resolveRef rt st (JStr ref) baseSchema = Inr v"
    if c: "startsWith_hash ref \<longrightarrow>
          baseSchema \<noteq> JNull \<and>
          (\<forall>ks k w e'. prefix (ks @ [k]) ?path \<and>
                       follow rt (Json baseSchema) ks = Inr (Some w) \<longrightarrow> rt w k \<noteq> Inl e')"
      "\<not> startsWith_hash ref \<longrightarrow> (\<forall>i\<in>fst ` set st. is_string i)"
  proof (cases "resolveRef rt st (JStr ref) baseSchema")
    case (Inl e')
    from raises[OF Inl] c show ?thesis by blast
  next
    case (Inr v)
    then show ?thesis by blast
  qed
  from raises returns show ?thesis by blast
qed

theorem resolveRef_returns_witness:
  "resolveRef sample_runtime [] (JStr ''#/constructor/caller'') (JObj []) = Inl TypeError \<and>
   startsWith_hash ''#/constructor/caller'' \<and> JObj [] \<noteq> JNull \<and>
   (\<exists>ks k w. prefix (ks @ [k]) (split_on CHR ''/'' (drop 2 ''#/constructor/caller'')) \<and>
              follow sample_runtime (Json (JObj [])) ks = Inr (Some w) \<and> w \<noteq> Json JNull \<and>
              sample_runtime w k = Inl TypeError) \<and>
   startsWith_hash ''#/constructor/name'' \<and>
   (\<exists>v. resolveRef sample_runtime numberedStore (JStr ''#/constructor/name'') (JObj []) = Inr v) \<and>
   \<not> startsWith_hash ''x.json'' \<and> list_all is_string (map fst twoSchemas) \<and>
   (\<exists>v. resolveRef sample_runtime twoSchemas (JStr ''x.json'') JNull = Inr v)"
proof -
  have r: "resolveRef sample_runtime [] (JStr ''#/constructor/caller'') (JObj []) = Inl TypeError"
    by code_simp
  have h1: "startsWith_hash ''#/constructor/caller''" by simp
  have h2: "startsWith_hash ''#/constructor/name''" by simp
  have h3: "\<not> startsWith_hash ''x.json''" by simp
  have h4: "\<forall>i\<in>fst ` set twoSchemas. is_string i" by (simp add: twoSchemas_def)
  have n: "JObj [] \<noteq> JNull" by simp
  from resolveRef_returns[of sample_runtime "[]" "''#/constructor/caller''" "JObj []" TypeError,
      THEN conjunct1] r h1
  have a: "\<exists>ks k w. prefix (ks @ [k]) (split_on CHR ''/'' (drop 2 ''#/constructor/caller'')) \<and>
              follow sample_runtime (Json (JObj [])) ks = Inr (Some w) \<and> w \<noteq> Json JNull \<and>
              sample_runtime w k = Inl TypeError"
    by simp
  have p: "split_on CHR ''/'' (drop 2 ''#/constructor/name'') = [''constructor'', ''name'']"
    by code_simp
  have q: "\<forall>ks k w e'. prefix (ks @ [k]) (split_on CHR ''/'' (drop 2 ''#/constructor/name'')) \<and>
             follow sample_runtime (Json (JObj [])) ks = Inr (Some w) \<longrightarrow> sample_runtime w k \<noteq> Inl e'"
  proof -
    have f0: "follow sample_runtime (Json (JObj [])) [] = Inr (Some (Json (JObj [])))" by simp
    have f1: "follow sample_runtime (Json (JObj [])) [''constructor''] = Inr (Some (Builtin ''Object''))"
      by code_simp
    have r0: "sample_runtime (Json (JObj [])) ''constructor'' \<noteq> Inl e'" for e'
      by (simp add: sample_runtime_def)
    have r1: "sample_runtime (Builtin ''Object'') ''name'' \<noteq> Inl e'" for e'
      by (simp add: sample_runtime_def)
    show ?thesis
      unfolding p prefix_snoc_two by (auto simp: f0 f1 r0 r1 simp del: follow.simps)
  qed
  from resolveRef_returns[of sample_runtime numberedStore "''#/constructor/name''" "JObj []",
      THEN conjunct2] h2 n q
  have b: "\<exists>v. resolveRef sample_runtime numberedStore (JStr ''#/constructor/name'') (JObj []) = Inr v"
    by blast
  from resolveRef_returns[of sample_runtime twoSchemas "''x.json''" JNull, THEN conjunct2] h3 h4
  have c: "\<exists>v. resolveRef sample_runtime twoSchemas (JStr ''x.json'') JNull = Inr v"
    by simp
  from r h1 h2 h3 h4 a b c show ?thesis by (simp add: list_all_iff)
qed

section \<open>The property extractor\<close>

text \<open>
  C2, as stated: for every schema node, \<^verbatim>\<open>extractProperties\<close> returns one row
  per entry of the node's \<^verbatim>\<open>properties\<close> in the insertion order of the keys,
  and then the rows of the branches of \<^verbatim>\<open>allOf\<close>.
  \<^verbatim>\<open>Object.entries\<close> enumerates the keys that are array indices first, in
  ascending order: properties written in the order b, 1, a, 0 give the rows 0, 1, b, a. And not
  every node gives rows: one whose \<^verbatim>\<open>required\<close> is a number raises a
  TypeError.
\<close>

theorem index_keys_first:
  "own_prop indexKeysNode ''properties'' =
     Some (JObj [(''b'', JObj []), (''1'', JObj []), (''a'', JObj []), (''0'', JObj [])]) \<and>
   extractProperties 1 sample_runtime [] (Json indexKeysNode) JNull =
     Inr [\<lparr>category = JNull, name = ''0'', schema = JObj [], required = False\<rparr>,
          \<lparr>category = JNull, name = ''1'', schema = JObj [], required = False\<rparr>,
          \<lparr>category = JNull, name = ''b'', schema = JObj [], required = False\<rparr>,
          \<lparr>category = JNull, name = ''a'', schema = JObj [], required = False\<rparr>] \<and>
   extractProperties 1 sample_runtime [] (Json requiredNumberNode) JNull = Inl TypeError"
  by code_simp

text \<open>
  C2, amended: within a depth of the call stack, \<^verbatim>\<open>extractProperties\<close>
  returns \<open>result\<close> on a node exactly when the node is not null, its
  \<^verbatim>\<open>required\<close> can be searched if it has properties (it is left out, null, an
  array or a string), its \<^verbatim>\<open>allOf\<close> can be iterated, every branch returns,
  and \<open>result\<close> is the rows of the node's \<^verbatim>\<open>properties\<close> followed
  by the rows of the branches in branch order, nothing removed. The rows of
  \<^verbatim>\<open>properties\<close> are one per entry in the order in which
  \<^verbatim>\<open>Object.entries\<close> enumerates them, with the current category, the fragment
  of the entry, and required as the name is contained in \<^verbatim>\<open>required\<close>. A node
  other than null with neither \<^verbatim>\<open>properties\<close> nor
  \<^verbatim>\<open>allOf\<close>, or with falsy ones, gives no rows, and neither does a value of
  the runtime. A result within a depth is the result within every greater depth. When
  \<^verbatim>\<open>properties\<close> is an object in whose text no key is an array index and no
  key is repeated, its rows are in the order of the text. When no key is repeated, there is one row
  for each member of the text, with its fragment; the rows whose names are array indices come first,
  in ascending order, and the other rows follow in the order of the text.
\<close>

theorem extractProperties_order:
  "(extractProperties (Suc depth) rt st (Json sch) cat = Inr result \<longleftrightarrow>
      sch \<noteq> JNull \<and> (direct_properties sch cat \<noteq> [] \<longrightarrow> required_usable sch) \<and> allOf_usable sch \<and>
      (\<exists>rs. list_all2 (\<lambda>sub ps. allOf_branch (extractProperties depth rt st) rt st sch cat sub = Inr ps)
              (branches sch) rs
            \<and> result = direct_properties sch cat @ concat rs))
   \<and> (sch \<noteq> JNull \<and> \<not> truthy_u (own_prop sch ''properties'') \<and> \<not> truthy_u (own_prop sch ''allOf'') \<longrightarrow>
        extractProperties (Suc depth) rt st (Json sch) cat = Inr [])
   \<and> extractProperties (Suc depth) rt st (Builtin h) cat = Inr []
   \<and> (extractProperties depth rt st v cat = Inr result \<longrightarrow>
        extractProperties (depth + extra) rt st v cat = Inr result)
   \<and> (own_prop sch ''properties'' = Some (JObj kvs) \<and> distinct (map fst kvs) \<and>
       (\<forall>k\<in>set (map fst kvs). array_index k = None) \<longrightarrow>
        direct_properties sch cat =
          map (\<lambda>(nm, frag). \<lparr>category = cat, name = nm, schema = frag,
                               required = required_contains sch nm\<rparr>) kvs)
   \<and> (own_prop sch ''properties'' = Some (JObj kvs) \<and> distinct (map fst kvs) \<longrightarrow>
        map name (direct_properties sch cat) =
          filter (\<lambda>k. array_index k \<noteq> None) (map name (direct_properties sch cat)) @
          filter (\<lambda>k. array_index k = None) (map fst kvs) \<and>
        sorted (map decimal_value
          (filter (\<lambda>k. array_index k \<noteq> None) (map name (direct_properties sch cat)))) \<and>
        set (map (\<lambda>p. (name p, schema p)) (direct_properties sch cat)) = set kvs \<and>
        length (direct_properties sch cat) = length kvs \<and>
        (\<forall>p\<in>set (direct_properties sch cat).
           category p = cat \<and> required p = required_contains sch (name p)))"
proof -
  have order: "(own_prop sch ''properties'' = Some (JObj kvs) \<and> distinct (map fst kvs) \<longrightarrow>
          map name (direct_properties sch cat) =
            filter (\<lambda>k. array_index k \<noteq> None) (map name (direct_properties sch cat)) @
            filter (\<lambda>k. array_index k = None) (map fst kvs) \<and>
          sorted (map decimal_value
            (filter (\<lambda>k. array_index k \<noteq> None) (map name (direct_properties sch cat)))) \<and>
          set (map (\<lambda>p. (name p, schema p)) (direct_properties sch cat)) = set kvs \<and>
          length (direct_properties sch cat) = length kvs \<and>
          (\<forall>p\<in>set (direct_properties sch cat).
             category p = cat \<and> required p = required_contains sch (name p)))"
    using direct_properties_order[of sch kvs cat] direct_properties_entries[of sch kvs cat]
    by blast
  have plain: "own_prop sch ''properties'' = Some (JObj kvs) \<and> distinct (map fst kvs) \<and>
       (\<forall>k\<in>set (map fst kvs). array_index k = None) \<longrightarrow>
        direct_properties sch cat =
          map (\<lambda>(nm, frag). \<lparr>category = cat, name = nm, schema = frag,
                               required = required_contains sch nm\<rparr>) kvs"
    using direct_properties_insertion_order[of sch kvs cat] by blast
  have none: "sch \<noteq> JNull \<and> \<not> truthy_u (own_prop sch ''properties'') \<and> \<not> truthy_u (own_prop sch ''allOf'') \<longrightarrow>
        extractProperties (Suc depth) rt st (Json sch) cat = Inr []"
    by (cases "own_prop sch ''properties''"; cases "own_prop sch ''allOf''") (simp_all add: get_prop_def)
  have builtin: "extractProperties (Suc depth) rt st (Builtin h) cat = Inr []"
    by simp
  have deeper: "extractProperties depth rt st v cat = Inr result \<longrightarrow>
        extractProperties (depth + extra) rt st v cat = Inr result"
    by (rule impI) (rule extractProperties_depth_mono)
  show ?thesis by (rule conjI[OF extract_Suc conjI[OF none conjI[OF builtin conjI[OF deeper conjI[OF plain order]]]]])
qed

theorem extractProperties_order_witness:
  "extractProperties 2 sample_runtime [] (Json composedSchema) JNull =
     Inr [\<lparr>category = JNull, name = ''id'', schema = JObj [(''type'', JStr ''integer'')], required = True\<rparr>,
          \<lparr>category = JNull, name = ''label'', schema = JObj [(''type'', JStr ''string'')], required = False\<rparr>,
          \<lparr>category = JNull, name = ''id'', schema = JObj [(''type'', JStr ''string'')], required = False\<rparr>,
          \<lparr>category = JStr ''Extra'', name = ''id'', schema = JObj [], required = False\<rparr>]
   \<and> own_prop composedSchema ''properties'' =
       Some (JObj [(''id'', JObj [(''type'', JStr ''integer'')]), (''label'', JObj [(''type'', JStr ''string'')])])
   \<and> array_index ''id'' = None \<and> array_index ''label'' = None
   \<and> direct_properties composedSchema JNull =
       [\<lparr>category = JNull, name = ''id'', schema = JObj [(''type'', JStr ''integer'')], required = True\<rparr>,
        \<lparr>category = JNull, name = ''label'', schema = JObj [(''type'', JStr ''string'')], required = False\<rparr>]
   \<and> branches composedSchema = [inlineBranch, refBranch]
   \<and> allOf_branch (extractProperties 1 sample_runtime []) sample_runtime [] composedSchema JNull inlineBranch =
       Inr [\<lparr>category = JNull, name = ''id'', schema = JObj [(''type'', JStr ''string'')], required = False\<rparr>]
   \<and> allOf_branch (extractProperties 1 sample_runtime []) sample_runtime [] composedSchema JNull refBranch =
       Inr [\<lparr>category = JStr ''Extra'', name = ''id'', schema = JObj [], required = False\<rparr>]
   \<and> JObj [] \<noteq> JNull \<and> \<not> truthy_u (own_prop (JObj []) ''properties'') \<and>
     \<not> truthy_u (own_prop (JObj []) ''allOf'')
   \<and> extractProperties 1 sample_runtime [] (Json (JObj [])) (JStr ''Extra'') = Inr []
   \<and> extractProperties (1 + 4) sample_runtime [] (Json (JObj [])) (JStr ''Extra'') = Inr []
   \<and> own_prop indexKeysNode ''properties'' =
       Some (JObj [(''b'', JObj []), (''1'', JObj []), (''a'', JObj []), (''0'', JObj [])])
   \<and> map name (direct_properties indexKeysNode JNull) =
       filter (\<lambda>k. array_index k \<noteq> None) (map name (direct_properties indexKeysNode JNull)) @
       [''b'', ''a'']
   \<and> sorted (map decimal_value
        (filter (\<lambda>k. array_index k \<noteq> None) (map name (direct_properties indexKeysNode JNull))))
   \<and> length (direct_properties indexKeysNode JNull) = 4"
proof -
  let ?ikv = "[(''b'', JObj []), (''1'', JObj []), (''a'', JObj []), (''0'', JObj [])]"
  have ik: "own_prop indexKeysNode ''properties'' = Some (JObj ?ikv) \<and> distinct (map fst ?ikv)"
    by code_simp
  have nf: "filter (\<lambda>k. array_index k = None) (map fst ?ikv) = [''b'', ''a'']" by code_simp
  from extractProperties_order[where sch = indexKeysNode and kvs = ?ikv and cat = JNull,
      THEN conjunct2, THEN conjunct2, THEN conjunct2, THEN conjunct2, THEN conjunct2] ik
  have io: "map name (direct_properties indexKeysNode JNull) =
          filter (\<lambda>k. array_index k \<noteq> None) (map name (direct_properties indexKeysNode JNull)) @
          filter (\<lambda>k. array_index k = None) (map fst ?ikv) \<and>
        sorted (map decimal_value
          (filter (\<lambda>k. array_index k \<noteq> None) (map name (direct_properties indexKeysNode JNull)))) \<and>
        set (map (\<lambda>p. (name p, schema p)) (direct_properties indexKeysNode JNull)) = set ?ikv \<and>
        length (direct_properties indexKeysNode JNull) = length ?ikv \<and>
        (\<forall>p\<in>set (direct_properties indexKeysNode JNull).
           category p = JNull \<and> required p = required_contains indexKeysNode (name p))"
    by (rule mp)
  have io1: "map name (direct_properties indexKeysNode JNull) =
       filter (\<lambda>k. array_index k \<noteq> None) (map name (direct_properties indexKeysNode JNull)) @
       [''b'', ''a'']"
    using io[THEN conjunct1] unfolding nf .
  have io2: "sorted (map decimal_value
        (filter (\<lambda>k. array_index k \<noteq> None) (map name (direct_properties indexKeysNode JNull))))"
    using io by (rule conjunct2[THEN conjunct1])
  have io3: "length (direct_properties indexKeysNode JNull) = 4"
    using io[THEN conjunct2, THEN conjunct2, THEN conjunct2, THEN conjunct1] by simp
  let ?ext = "extractProperties (Suc 0) sample_runtime []"
  let ?rs = "[[\<lparr>category = JNull, name = ''id'', schema = JObj [(''type'', JStr ''string'')], required = False\<rparr>],
              [\<lparr>category = JStr ''Extra'', name = ''id'', schema = JObj [], required = False\<rparr>]]"
  have b: "branches composedSchema = [inlineBranch, refBranch]" by code_simp
  have b1: "allOf_branch ?ext sample_runtime [] composedSchema JNull inlineBranch = Inr (?rs ! 0)"
    by code_simp
  have b2: "allOf_branch ?ext sample_runtime [] composedSchema JNull refBranch = Inr (?rs ! 1)"
    by code_simp
  let ?kvs = "[(''id'', JObj [(''type'', JStr ''integer'')]), (''label'', JObj [(''type'', JStr ''string'')])]"
  have k: "own_prop composedSchema ''properties'' = Some (JObj ?kvs) \<and> distinct (map fst ?kvs) \<and>
       (\<forall>k\<in>set (map fst ?kvs). array_index k = None)"
    by code_simp
  have q: "map (\<lambda>(nm, frag). \<lparr>category = JNull, name = nm, schema = frag,
                               required = required_contains composedSchema nm\<rparr>) ?kvs =
     [\<lparr>category = JNull, name = ''id'', schema = JObj [(''type'', JStr ''integer'')], required = True\<rparr>,
      \<lparr>category = JNull, name = ''label'', schema = JObj [(''type'', JStr ''string'')], required = False\<rparr>]"
    by code_simp
  from extractProperties_order[where sch = composedSchema and kvs = ?kvs and cat = JNull,
      THEN conjunct2, THEN conjunct2, THEN conjunct2, THEN conjunct2, THEN conjunct1] k
  have "direct_properties composedSchema JNull =
     map (\<lambda>(nm, frag). \<lparr>category = JNull, name = nm, schema = frag,
                          required = required_contains composedSchema nm\<rparr>) ?kvs"
    by (rule mp)
  then have d: "direct_properties composedSchema JNull =
     [\<lparr>category = JNull, name = ''id'', schema = JObj [(''type'', JStr ''integer'')], required = True\<rparr>,
      \<lparr>category = JNull, name = ''label'', schema = JObj [(''type'', JStr ''string'')], required = False\<rparr>]"
    by (simp only: q)
  have u: "composedSchema \<noteq> JNull \<and> required_usable composedSchema \<and> allOf_usable composedSchema"
    by code_simp
  have e: "JObj [] \<noteq> JNull \<and> \<not> truthy_u (own_prop (JObj []) ''properties'') \<and>
     \<not> truthy_u (own_prop (JObj []) ''allOf'')"
    by code_simp
  have "list_all2 (\<lambda>sub ps. allOf_branch ?ext sample_runtime [] composedSchema JNull sub = Inr ps)
          (branches composedSchema) ?rs"
    using b1 b2 by (simp add: b)
  then have "\<exists>rs. list_all2 (\<lambda>sub ps. allOf_branch ?ext sample_runtime [] composedSchema JNull sub = Inr ps)
          (branches composedSchema) rs \<and>
        direct_properties composedSchema JNull @ concat ?rs = direct_properties composedSchema JNull @ concat rs"
    by blast
  with u extractProperties_order[of "Suc 0" sample_runtime "[]" composedSchema JNull
      "direct_properties composedSchema JNull @ concat ?rs", THEN conjunct1]
  have r: "extractProperties (Suc (Suc 0)) sample_runtime [] (Json composedSchema) JNull =
      Inr (direct_properties composedSchema JNull @ concat ?rs)"
    by blast
  from extractProperties_order[of 0 sample_runtime "[]" "JObj []" "JStr ''Extra''" "[]",
      THEN conjunct2, THEN conjunct1] e
  have n: "extractProperties (Suc 0) sample_runtime [] (Json (JObj [])) (JStr ''Extra'') = Inr []" by blast
  then have n1: "extractProperties 1 sample_runtime [] (Json (JObj [])) (JStr ''Extra'') = Inr []" by simp
  from extractProperties_order[where depth = 1 and rt = sample_runtime and st = "[]"
      and v = "Json (JObj [])" and cat = "JStr ''Extra''" and result = "[]" and extra = 4,
      THEN conjunct2, THEN conjunct2, THEN conjunct2, THEN conjunct1] n1
  have m: "extractProperties (1 + 4) sample_runtime [] (Json (JObj [])) (JStr ''Extra'') = Inr []"
    by (rule mp)
  have ai: "array_index ''id'' = None \<and> array_index ''label'' = None" by code_simp
  have main: "extractProperties 2 sample_runtime [] (Json composedSchema) JNull =
     Inr [\<lparr>category = JNull, name = ''id'', schema = JObj [(''type'', JStr ''integer'')], required = True\<rparr>,
          \<lparr>category = JNull, name = ''label'', schema = JObj [(''type'', JStr ''string'')], required = False\<rparr>,
          \<lparr>category = JNull, name = ''id'', schema = JObj [(''type'', JStr ''string'')], required = False\<rparr>,
          \<lparr>category = JStr ''Extra'', name = ''id'', schema = JObj [], required = False\<rparr>]"
    using r by (simp add: d numeral_2_eq_2)
  have c1: "allOf_branch (extractProperties 1 sample_runtime []) sample_runtime [] composedSchema JNull
      inlineBranch =
       Inr [\<lparr>category = JNull, name = ''id'', schema = JObj [(''type'', JStr ''string'')], required = False\<rparr>]"
    using b1 by simp
  have c2: "allOf_branch (extractProperties 1 sample_runtime []) sample_runtime [] composedSchema JNull
      refBranch =
       Inr [\<lparr>category = JStr ''Extra'', name = ''id'', schema = JObj [], required = False\<rparr>]"
    using b2 by simp
  show ?thesis
    by (intro conjI main k[THEN conjunct1] ai[THEN conjunct1] ai[THEN conjunct2] d b c1 c2
          e[THEN conjunct1] e[THEN conjunct2, THEN conjunct1] e[THEN conjunct2, THEN conjunct2]
          n1 m ik[THEN conjunct1] io1 io2 io3)
qed

text \<open>
  C3, as stated: a branch that is a reference to a document with a title gives its rows that title
  as category, computed as \<^verbatim>\<open>resolved.title ?? category\<close>. The source
  computes \<^verbatim>\<open>resolved.title || category\<close>: a title that is the empty string
  is a title, and the rows keep the category of the caller.
\<close>

theorem empty_title_inherits:
  "resolveRef sample_runtime [] (JStr ''#/d'') untitledNode = Inr (Json untitledSchema) \<and>
   own_prop untitledSchema ''title'' = Some (JStr []) \<and>
   extractProperties 2 sample_runtime [] (Json untitledNode) (JStr ''Cat'') =
     Inr [\<lparr>category = JStr ''Cat'', name = ''a'', schema = JObj [], required = False\<rparr>]"
  by code_simp

text \<open>
  C3, amended: a branch with a truthy \<^verbatim>\<open>$ref\<close> that resolves to a document
  with a truthy title yields the rows extracted from that document under the title as category, so
  that the document's own properties carry the title; when the resolved document has no title or a
  falsy one, or when the branch is inline, the rows are extracted under the category of the caller,
  and so they are when the reference resolves to a value of the runtime, which has no title.
\<close>

theorem allOf_branch_category:
  "(own_prop sub ''$ref'' = Some r \<and> truthy r \<and> resolveRef rt st r sch = Inr (Json resolved) \<and>
    truthy resolved \<and> own_prop resolved ''title'' = Some t \<and> truthy t \<longrightarrow>
      allOf_branch (extractProperties depth rt st) rt st sch cat sub =
        extractProperties depth rt st (Json resolved) t \<and>
      (\<forall>ps. extractProperties depth rt st (Json resolved) t = Inr ps \<longrightarrow>
         prefix (direct_properties resolved t) ps \<and>
         (\<forall>p\<in>set (direct_properties resolved t). category p = t)))
   \<and> (own_prop sub ''$ref'' = Some r \<and> truthy r \<and> resolveRef rt st r sch = Inr (Json resolved) \<and>
       truthy resolved \<and> \<not> truthy_u (own_prop resolved ''title'') \<longrightarrow>
        allOf_branch (extractProperties depth rt st) rt st sch cat sub =
          extractProperties depth rt st (Json resolved) cat)
   \<and> (sub \<noteq> JNull \<and> \<not> truthy_u (own_prop sub ''$ref'') \<longrightarrow>
        allOf_branch (extractProperties depth rt st) rt st sch cat sub =
          extractProperties depth rt st (Json sub) cat)
   \<and> (own_prop sub ''$ref'' = Some r \<and> truthy r \<and> resolveRef rt st r sch = Inr (Builtin h) \<longrightarrow>
        allOf_branch (extractProperties depth rt st) rt st sch cat sub =
          extractProperties depth rt st (Builtin h) cat)"
proof -
  have rows: "prefix (direct_properties resolved t) ps"
    if "extractProperties depth rt st (Json resolved) t = Inr ps" for ps
  proof (cases depth)
    case 0
    with that show ?thesis by simp
  next
    case (Suc d)
    with that extract_Suc[of d rt st resolved t ps] show ?thesis by auto
  qed
  show ?thesis
    using rows category_direct_properties
    by (auto simp: allOf_branch_def get_prop_def js_or_falsy split: option.splits)
qed

theorem allOf_branch_category_witness:
  "own_prop refBranch ''$ref'' = Some (JStr ''#/$defs/Extra'') \<and> truthy (JStr ''#/$defs/Extra'') \<and>
   resolveRef sample_runtime [] (JStr ''#/$defs/Extra'') composedSchema = Inr (Json extraSchema) \<and>
   truthy extraSchema \<and>
   own_prop extraSchema ''title'' = Some (JStr ''Extra'') \<and> truthy (JStr ''Extra'') \<and>
   allOf_branch (extractProperties 1 sample_runtime []) sample_runtime [] composedSchema JNull refBranch =
     Inr [\<lparr>category = JStr ''Extra'', name = ''id'', schema = JObj [], required = False\<rparr>] \<and>
   inlineBranch \<noteq> JNull \<and> \<not> truthy_u (own_prop inlineBranch ''$ref'') \<and>
   allOf_branch (extractProperties 1 sample_runtime []) sample_runtime [] composedSchema (JStr ''Cat'')
       inlineBranch =
     Inr [\<lparr>category = JStr ''Cat'', name = ''id'', schema = JObj [(''type'', JStr ''string'')], required = False\<rparr>] \<and>
   own_prop (JObj [(''$ref'', JStr ''#/d'')]) ''$ref'' = Some (JStr ''#/d'') \<and> truthy (JStr ''#/d'') \<and>
   resolveRef sample_runtime [] (JStr ''#/d'') untitledNode = Inr (Json untitledSchema) \<and>
   truthy untitledSchema \<and> \<not> truthy_u (own_prop untitledSchema ''title'') \<and>
   allOf_branch (extractProperties 1 sample_runtime []) sample_runtime [] untitledNode (JStr ''Cat'')
       (JObj [(''$ref'', JStr ''#/d'')]) =
     Inr [\<lparr>category = JStr ''Cat'', name = ''a'', schema = JObj [], required = False\<rparr>] \<and>
   own_prop (JObj [(''$ref'', JStr ''#/constructor'')]) ''$ref'' = Some (JStr ''#/constructor'') \<and>
   truthy (JStr ''#/constructor'') \<and>
   resolveRef sample_runtime [] (JStr ''#/constructor'') (JObj []) = Inr (Builtin ''Object'') \<and>
   allOf_branch (extractProperties 1 sample_runtime []) sample_runtime [] (JObj []) (JStr ''Cat'')
       (JObj [(''$ref'', JStr ''#/constructor'')]) = Inr []"
proof -
  have u: "own_prop (JObj [(''$ref'', JStr ''#/d'')]) ''$ref'' = Some (JStr ''#/d'') \<and> truthy (JStr ''#/d'') \<and>
   resolveRef sample_runtime [] (JStr ''#/d'') untitledNode = Inr (Json untitledSchema) \<and>
   truthy untitledSchema \<and> \<not> truthy_u (own_prop untitledSchema ''title'')"
    by code_simp
  have e3: "extractProperties 1 sample_runtime [] (Json untitledSchema) (JStr ''Cat'') =
     Inr [\<lparr>category = JStr ''Cat'', name = ''a'', schema = JObj [], required = False\<rparr>]"
    by code_simp
  from allOf_branch_category[where sub = "JObj [(''$ref'', JStr ''#/d'')]" and r = "JStr ''#/d''"
      and rt = sample_runtime and st = "[]" and sch = untitledNode and resolved = untitledSchema
      and depth = 1 and cat = "JStr ''Cat''", THEN conjunct2, THEN conjunct1] u e3
  have c: "allOf_branch (extractProperties 1 sample_runtime []) sample_runtime [] untitledNode (JStr ''Cat'')
       (JObj [(''$ref'', JStr ''#/d'')]) =
     Inr [\<lparr>category = JStr ''Cat'', name = ''a'', schema = JObj [], required = False\<rparr>]"
    by simp
  have w: "own_prop (JObj [(''$ref'', JStr ''#/constructor'')]) ''$ref'' = Some (JStr ''#/constructor'') \<and>
   truthy (JStr ''#/constructor'') \<and>
   resolveRef sample_runtime [] (JStr ''#/constructor'') (JObj []) = Inr (Builtin ''Object'')"
    by code_simp
  have e4: "extractProperties 1 sample_runtime [] (Builtin ''Object'') (JStr ''Cat'') = Inr []"
    by code_simp
  from allOf_branch_category[where sub = "JObj [(''$ref'', JStr ''#/constructor'')]"
      and r = "JStr ''#/constructor''" and rt = sample_runtime and st = "[]" and sch = "JObj []"
      and h = "''Object''" and depth = 1 and cat = "JStr ''Cat''",
      THEN conjunct2, THEN conjunct2, THEN conjunct2] w e4
  have d: "allOf_branch (extractProperties 1 sample_runtime []) sample_runtime [] (JObj []) (JStr ''Cat'')
       (JObj [(''$ref'', JStr ''#/constructor'')]) = Inr []"
    by simp
  have h: "own_prop refBranch ''$ref'' = Some (JStr ''#/$defs/Extra'') \<and> truthy (JStr ''#/$defs/Extra'') \<and>
   resolveRef sample_runtime [] (JStr ''#/$defs/Extra'') composedSchema = Inr (Json extraSchema) \<and>
   truthy extraSchema \<and>
   own_prop extraSchema ''title'' = Some (JStr ''Extra'') \<and> truthy (JStr ''Extra'')"
    by code_simp
  have i: "inlineBranch \<noteq> JNull \<and> \<not> truthy_u (own_prop inlineBranch ''$ref'')"
    by code_simp
  have e1: "extractProperties 1 sample_runtime [] (Json extraSchema) (JStr ''Extra'') =
     Inr [\<lparr>category = JStr ''Extra'', name = ''id'', schema = JObj [], required = False\<rparr>]"
    by code_simp
  have e2: "extractProperties 1 sample_runtime [] (Json inlineBranch) (JStr ''Cat'') =
     Inr [\<lparr>category = JStr ''Cat'', name = ''id'', schema = JObj [(''type'', JStr ''string'')], required = False\<rparr>]"
    by code_simp
  from allOf_branch_category[where sub = refBranch and r = "JStr ''#/$defs/Extra''" and rt = sample_runtime
      and st = "[]" and sch = composedSchema and resolved = extraSchema and t = "JStr ''Extra''"
      and depth = 1 and cat = JNull, THEN conjunct1] h e1
  have a: "allOf_branch (extractProperties 1 sample_runtime []) sample_runtime [] composedSchema JNull refBranch =
     Inr [\<lparr>category = JStr ''Extra'', name = ''id'', schema = JObj [], required = False\<rparr>]"
    by simp
  from allOf_branch_category[where sub = inlineBranch and rt = sample_runtime and st = "[]"
      and sch = composedSchema and depth = 1 and cat = "JStr ''Cat''",
      THEN conjunct2, THEN conjunct2, THEN conjunct1] i e2
  have b: "allOf_branch (extractProperties 1 sample_runtime []) sample_runtime [] composedSchema (JStr ''Cat'')
       inlineBranch =
     Inr [\<lparr>category = JStr ''Cat'', name = ''id'', schema = JObj [(''type'', JStr ''string'')], required = False\<rparr>]"
    by simp
  from h i a b u c w d show ?thesis by blast
qed

text \<open>
  C7, as stated: a \<^verbatim>\<open>$ref\<close> in \<^verbatim>\<open>allOf\<close> that fails to
  resolve is not fatal, the branch contributes no rows and the other branches are processed. With a
  store whose only identifier is the number 5, no identifier matches the reference of the branch,
  yet the resolver raises a TypeError on that identifier and the extraction raises it too; and so
  does the extraction of a node with a branch whose \<^verbatim>\<open>$ref\<close> is the number 5.
\<close>

theorem unmatched_ref_raises:
  "find (id_matches ''missing.json#/x'') numberedStore = None \<and>
   resolveRef sample_runtime numberedStore (JStr ''missing.json#/x'') danglingNode = Inl TypeError \<and>
   extractProperties 2 sample_runtime numberedStore (Json danglingNode) JNull = Inl TypeError \<and>
   extractProperties 2 sample_runtime [] (Json numberRefNode) JNull = Inl TypeError"
  by code_simp

text \<open>
  C7, amended: when the resolver returns null, or another falsy value, for the truthy
  \<^verbatim>\<open>$ref\<close> of a branch of \<^verbatim>\<open>allOf\<close>, the branch
  contributes no rows, and \<^verbatim>\<open>extractProperties\<close> returns on the node exactly
  what it returns without that branch: the rows of \<^verbatim>\<open>properties\<close> followed by
  the rows of the other branches in their order. When the resolver raises on the
  \<^verbatim>\<open>$ref\<close> of a branch, \<^verbatim>\<open>extractProperties\<close> raises.
  When \<^verbatim>\<open>items\<close> of the main schema has a truthy
  \<^verbatim>\<open>$ref\<close> for which the resolver returns a falsy value,
  \<^verbatim>\<open>getTableData\<close> returns null.
\<close>

theorem unresolved_ref_skipped:
  "(branches sch = before @ sub # after \<and> own_prop sub ''$ref'' = Some r \<and> truthy r \<and>
    resolveRef rt st r sch = Inr v \<and> \<not> truthy_v v \<longrightarrow>
      allOf_branch (extractProperties depth rt st) rt st sch cat sub = Inr [] \<and>
      (extractProperties (Suc depth) rt st (Json sch) cat = Inr result \<longleftrightarrow>
         (direct_properties sch cat \<noteq> [] \<longrightarrow> required_usable sch) \<and>
         (\<exists>rs. list_all2
                 (\<lambda>b ps. allOf_branch (extractProperties depth rt st) rt st sch cat b = Inr ps)
                 (before @ after) rs
               \<and> result = direct_properties sch cat @ concat rs)))
   \<and> (sub \<in> set (branches sch) \<and> own_prop sub ''$ref'' = Some r \<and> truthy r \<and>
       resolveRef rt st r sch = Inl e \<longrightarrow>
        (\<exists>e'. extractProperties (Suc depth) rt st (Json sch) cat = Inl e'))
   \<and> (truthy (mainSchema s) \<and> own_prop (mainSchema s) ''items'' = Some items \<and>
       own_prop items ''$ref'' = Some r \<and> truthy r \<and>
       resolveRef rt (schemas s) r (mainSchema s) = Inr v \<and> \<not> truthy_v v \<longrightarrow>
        getTableData depth rt s = Inr None)"
proof -
  let ?br = "\<lambda>b ps. allOf_branch (extractProperties depth rt st) rt st sch cat b = Inr ps"
  have skip: "allOf_branch (extractProperties depth rt st) rt st sch cat sub = Inr [] \<and>
      (extractProperties (Suc depth) rt st (Json sch) cat = Inr result \<longleftrightarrow>
         (direct_properties sch cat \<noteq> [] \<longrightarrow> required_usable sch) \<and>
         (\<exists>rs. list_all2 ?br (before @ after) rs
               \<and> result = direct_properties sch cat @ concat rs))"
    if h: "branches sch = before @ sub # after" "own_prop sub ''$ref'' = Some r" "truthy r"
      "resolveRef rt st r sch = Inr v" "\<not> truthy_v v"
  proof -
    from h have b: "allOf_branch (extractProperties depth rt st) rt st sch cat sub = Inr []"
      by (auto simp: allOf_branch_def get_prop_def)
    from h(1) have u: "sch \<noteq> JNull \<and> allOf_usable sch"
      by (intro branches_usable) simp
    have "(\<exists>rs. list_all2 ?br (before @ sub # after) rs \<and> result = direct_properties sch cat @ concat rs)
        \<longleftrightarrow> (\<exists>rs. list_all2 ?br (before @ after) rs \<and> result = direct_properties sch cat @ concat rs)"
    proof
      assume "\<exists>rs. list_all2 ?br (before @ sub # after) rs \<and> result = direct_properties sch cat @ concat rs"
      then obtain rs where l: "list_all2 ?br (before @ sub # after) rs"
        and r: "result = direct_properties sch cat @ concat rs" by blast
      from l obtain rb ps ra where rs: "rs = rb @ ps # ra" and lb: "list_all2 ?br before rb"
        and p: "?br sub ps" and la: "list_all2 ?br after ra"
        by (auto simp: list_all2_append1 list_all2_Cons1)
      from p b have "ps = []" by simp
      with rs r lb la have "list_all2 ?br (before @ after) (rb @ ra) \<and>
          result = direct_properties sch cat @ concat (rb @ ra)"
        by (auto intro: list_all2_appendI)
      then show "\<exists>rs. list_all2 ?br (before @ after) rs \<and> result = direct_properties sch cat @ concat rs"
        by blast
    next
      assume "\<exists>rs. list_all2 ?br (before @ after) rs \<and> result = direct_properties sch cat @ concat rs"
      then obtain rs where l: "list_all2 ?br (before @ after) rs"
        and r: "result = direct_properties sch cat @ concat rs" by blast
      from l obtain rb ra where rs: "rs = rb @ ra" and lb: "list_all2 ?br before rb"
        and la: "list_all2 ?br after ra"
        by (auto simp: list_all2_append1)
      from lb la b have "list_all2 ?br (before @ sub # after) (rb @ [] # ra)"
        by (auto intro!: list_all2_appendI)
      with rs r have "list_all2 ?br (before @ sub # after) (rb @ [] # ra) \<and>
          result = direct_properties sch cat @ concat (rb @ [] # ra)" by simp
      then show "\<exists>rs. list_all2 ?br (before @ sub # after) rs \<and> result = direct_properties sch cat @ concat rs"
        by blast
    qed
    with b u show ?thesis
      unfolding extract_Suc h(1) by blast
  qed
  have fatal: "\<exists>e'. extractProperties (Suc depth) rt st (Json sch) cat = Inl e'"
    if h: "sub \<in> set (branches sch)" "own_prop sub ''$ref'' = Some r" "truthy r"
      "resolveRef rt st r sch = Inl e"
  proof (cases "extractProperties (Suc depth) rt st (Json sch) cat")
    case (Inl e')
    then show ?thesis by blast
  next
    case (Inr result)
    then obtain rs where l: "list_all2 ?br (branches sch) rs"
      unfolding extract_Suc by blast
    with h(1) obtain ps where "?br sub ps"
      by (auto simp: list_all2_conv_all_nth in_set_conv_nth)
    moreover from h have "allOf_branch (extractProperties depth rt st) rt st sch cat sub = Inl e"
      by (auto simp: allOf_branch_def get_prop_def)
    ultimately show ?thesis by simp
  qed
  have g: "getTableData depth rt s = Inr None"
    if "truthy (mainSchema s)" "own_prop (mainSchema s) ''items'' = Some items"
       "own_prop items ''$ref'' = Some r" "truthy r"
       "resolveRef rt (schemas s) r (mainSchema s) = Inr v" "\<not> truthy_v v"
  proof -
    from that(3) have "items \<noteq> JNull" by auto
    with that show ?thesis by (simp add: getTableData_def item_schema_def)
  qed
  from skip fatal g show ?thesis by blast
qed

theorem unresolved_ref_skipped_witness:
  "branches danglingNode = [inlineBranch] @ danglingBranch # [inlineBranch] \<and>
   own_prop danglingBranch ''$ref'' = Some (JStr ''missing.json#/x'') \<and> truthy (JStr ''missing.json#/x'') \<and>
   resolveRef sample_runtime [] (JStr ''missing.json#/x'') danglingNode = Inr (Json JNull) \<and>
   \<not> truthy_v (Json JNull) \<and>
   allOf_branch (extractProperties 1 sample_runtime []) sample_runtime [] danglingNode JNull danglingBranch =
     Inr [] \<and>
   extractProperties 2 sample_runtime [] (Json danglingNode) JNull =
     Inr [\<lparr>category = JNull, name = ''id'', schema = JObj [(''type'', JStr ''string'')], required = False\<rparr>,
          \<lparr>category = JNull, name = ''id'', schema = JObj [(''type'', JStr ''string'')], required = False\<rparr>] \<and>
   truthy (mainSchema danglingItems) \<and>
   own_prop (mainSchema danglingItems) ''items'' = Some (JObj [(''$ref'', JStr ''#/nowhere'')]) \<and>
   own_prop (JObj [(''$ref'', JStr ''#/nowhere'')]) ''$ref'' = Some (JStr ''#/nowhere'') \<and>
   truthy (JStr ''#/nowhere'') \<and>
   resolveRef sample_runtime (schemas danglingItems) (JStr ''#/nowhere'') (mainSchema danglingItems) =
     Inr (Json JNull) \<and>
   getTableData 3 sample_runtime danglingItems = Inr None \<and>
   danglingBranch \<in> set (branches danglingNode) \<and>
   resolveRef sample_runtime numberedStore (JStr ''missing.json#/x'') danglingNode = Inl TypeError \<and>
   (\<exists>e. extractProperties 2 sample_runtime numberedStore (Json danglingNode) JNull = Inl e)"
proof -
  have h3: "danglingBranch \<in> set (branches danglingNode) \<and>
   own_prop danglingBranch ''$ref'' = Some (JStr ''missing.json#/x'') \<and> truthy (JStr ''missing.json#/x'') \<and>
   resolveRef sample_runtime numberedStore (JStr ''missing.json#/x'') danglingNode = Inl TypeError"
    by code_simp
  note t3 = unresolved_ref_skipped[where sch = danglingNode and sub = danglingBranch
      and r = "JStr ''missing.json#/x''" and rt = sample_runtime and st = numberedStore
      and e = TypeError and depth = 1 and cat = JNull,
      THEN conjunct2, THEN conjunct1, rule_format, OF h3]
  have h1: "branches danglingNode = [inlineBranch] @ danglingBranch # [inlineBranch] \<and>
   own_prop danglingBranch ''$ref'' = Some (JStr ''missing.json#/x'') \<and> truthy (JStr ''missing.json#/x'') \<and>
   resolveRef sample_runtime [] (JStr ''missing.json#/x'') danglingNode = Inr (Json JNull) \<and>
   \<not> truthy_v (Json JNull)"
    by code_simp
  have h2: "truthy (mainSchema danglingItems) \<and>
   own_prop (mainSchema danglingItems) ''items'' = Some (JObj [(''$ref'', JStr ''#/nowhere'')]) \<and>
   own_prop (JObj [(''$ref'', JStr ''#/nowhere'')]) ''$ref'' = Some (JStr ''#/nowhere'') \<and>
   truthy (JStr ''#/nowhere'') \<and>
   resolveRef sample_runtime (schemas danglingItems) (JStr ''#/nowhere'') (mainSchema danglingItems) =
     Inr (Json JNull) \<and> \<not> truthy_v (Json JNull)"
    by code_simp
  note t1 = unresolved_ref_skipped[where sch = danglingNode and before = "[inlineBranch]"
      and sub = danglingBranch and after = "[inlineBranch]" and r = "JStr ''missing.json#/x''"
      and rt = sample_runtime and st = "[]" and v = "Json JNull" and depth = 1 and cat = JNull,
      THEN conjunct1, rule_format, OF h1, THEN conjunct1]
  let ?row = "\<lparr>category = JNull, name = ''id'', schema = JObj [(''type'', JStr ''string'')], required = False\<rparr>"
  have d: "direct_properties danglingNode JNull = []" by code_simp
  have b: "allOf_branch (extractProperties 1 sample_runtime []) sample_runtime [] danglingNode JNull
             inlineBranch = Inr [?row]"
    by code_simp
  then have "list_all2
      (\<lambda>b ps. allOf_branch (extractProperties 1 sample_runtime []) sample_runtime [] danglingNode JNull b =
                Inr ps)
      ([inlineBranch] @ [inlineBranch]) [[?row], [?row]] \<and>
      [?row, ?row] = direct_properties danglingNode JNull @ concat [[?row], [?row]]"
    by (simp add: d)
  then have "\<exists>rs. list_all2
      (\<lambda>b ps. allOf_branch (extractProperties 1 sample_runtime []) sample_runtime [] danglingNode JNull b =
                Inr ps)
      ([inlineBranch] @ [inlineBranch]) rs \<and>
      [?row, ?row] = direct_properties danglingNode JNull @ concat rs"
    by blast
  with d unresolved_ref_skipped[where sch = danglingNode and before = "[inlineBranch]"
      and sub = danglingBranch and after = "[inlineBranch]" and r = "JStr ''missing.json#/x''"
      and rt = sample_runtime and st = "[]" and v = "Json JNull" and depth = 1 and cat = JNull
      and result = "[?row, ?row]",
      THEN conjunct1, rule_format, OF h1, THEN conjunct2]
  have "extractProperties (Suc 1) sample_runtime [] (Json danglingNode) JNull = Inr [?row, ?row]"
    by simp
  then have r: "extractProperties 2 sample_runtime [] (Json danglingNode) JNull = Inr [?row, ?row]"
    by (simp add: numeral_2_eq_2)
  note t2 = unresolved_ref_skipped[where s = danglingItems and r = "JStr ''#/nowhere''"
      and items = "JObj [(''$ref'', JStr ''#/nowhere'')]" and rt = sample_runtime and v = "Json JNull"
      and depth = 3,
      THEN conjunct2, THEN conjunct2, rule_format, OF h2]
  from t3 have t4: "\<exists>e. extractProperties 2 sample_runtime numberedStore (Json danglingNode) JNull = Inl e"
    by (simp add: numeral_2_eq_2)
  from t1 t2 r h1 h2 h3 t4 show ?thesis by simp
qed

section \<open>The keyword aggregator\<close>




section \<open>The schema processor\<close>

text \<open>
  C1, as stated: when no loaded document is of type array with \<^verbatim>\<open>items\<close>
  present, \<^verbatim>\<open>processFiles\<close> on several documents returns false and
  \<^verbatim>\<open>getTableData\<close> returns null; otherwise the last such document is the main
  schema. Two documents that share their \<^verbatim>\<open>$id\<close> leave one entry in the
  store: the fallback makes the second one the main schema, \<^verbatim>\<open>processFiles\<close>
  returns true and \<^verbatim>\<open>getTableData\<close> returns data. And a document of type
  array whose \<^verbatim>\<open>items\<close> is present but false is passed over.
\<close>

theorem shared_id_selected:
  "filter is_main (documents sharedIdFiles) = [] \<and>
   processFiles 3 sample_runtime cleared sharedIdFiles = Inr (sharedIdState, True) \<and>
   getTableData 3 sample_runtime sharedIdState =
     Inr (Some \<lparr>title = JStr ''Dataset Schema'', description = JStr [], properties = []\<rparr>) \<and>
   own_prop arrayOfNothing ''type'' = Some (JStr ''array'') \<and>
   own_prop arrayOfNothing ''items'' = Some (JBool False) \<and>
   processFiles 3 sample_runtime cleared itemsFalseFiles = Inr (itemsFalseState, True) \<and>
   mainSchema itemsFalseState = arrayOfRows"
  by code_simp

text \<open>
  C1, amended: when the files load (each parses, none is null), and some document is of type exactly
  array with a truthy \<^verbatim>\<open>items\<close>, the last such document is the main schema,
  and \<^verbatim>\<open>processFiles\<close> returns true unless the keyword collection raises,
  which it then raises too. When no document is such and the store does not hold exactly one entry,
  \<^verbatim>\<open>processFiles\<close> returns false and \<^verbatim>\<open>getTableData\<close>
  returns null.
\<close>

theorem main_schema_selection:
  assumes "load_loop files cleared = Inr s1"
  shows "(filter is_main (documents files) \<noteq> [] \<longrightarrow>
            mainSchema s1 = last (filter is_main (documents files)) \<and>
            (case collectKeywordUsage depth rt s1 of
               Inl e \<Rightarrow> processFiles depth rt s files = Inl e
             | Inr s' \<Rightarrow> processFiles depth rt s files = Inr (s', True) \<and>
                         mainSchema s' = last (filter is_main (documents files))))
       \<and> (filter is_main (documents files) = [] \<and> length (schemas s1) \<noteq> 1 \<longrightarrow>
            processFiles depth rt s files = Inr (s1, False) \<and> mainSchema s1 = JNull \<and>
            getTableData depth rt s1 = Inr None)"
proof -
  have sel: "mainSchema s1 = last (filter is_main (documents files)) \<and>
            (case collectKeywordUsage depth rt s1 of
               Inl e \<Rightarrow> processFiles depth rt s files = Inl e
             | Inr s' \<Rightarrow> processFiles depth rt s files = Inr (s', True) \<and>
                         mainSchema s' = last (filter is_main (documents files)))"
    if q: "filter is_main (documents files) \<noteq> []"
  proof -
    from q load_loop_main[OF assms] have m: "mainSchema s1 = last (filter is_main (documents files))"
      by simp
    from q have "last (filter is_main (documents files)) \<in> set (filter is_main (documents files))"
      by (rule last_in_set)
    then have "is_main (mainSchema s1)" by (simp add: m)
    then have t: "truthy (mainSchema s1)" by (rule is_main_truthy)
    then have n: "mainSchema s1 \<noteq> JNull" by auto
    have "case collectKeywordUsage depth rt s1 of
            Inl e \<Rightarrow> processFiles depth rt s files = Inl e
          | Inr s' \<Rightarrow> processFiles depth rt s files = Inr (s', True) \<and>
                      mainSchema s' = last (filter is_main (documents files))"
    proof (cases "collectKeywordUsage depth rt s1")
      case (Inl e)
      with t show ?thesis by (simp add: processFiles_def cleared_state assms)
    next
      case (Inr s')
      with collectKeywordUsage_main[OF Inr] t n m show ?thesis
        by (simp add: processFiles_def cleared_state assms)
    qed
    with m show ?thesis by simp
  qed
  have none: "processFiles depth rt s files = Inr (s1, False) \<and> mainSchema s1 = JNull \<and>
            getTableData depth rt s1 = Inr None"
    if a: "filter is_main (documents files) = [] \<and> length (schemas s1) \<noteq> 1"
  proof -
    from a load_loop_main[OF assms] have m: "mainSchema s1 = JNull" by (simp add: cleared_def)
    have "(case schemas s1 of [] \<Rightarrow> s1 | [(k, v)] \<Rightarrow> s1\<lparr>mainSchema := v\<rparr> | (k, v) # e # es \<Rightarrow> s1) = s1"
      using a by (auto split: list.splits)
    with m have p: "processFiles depth rt s files = Inr (s1, False)"
      by (simp add: processFiles_def cleared_state assms)
    from m have "getTableData depth rt s1 = Inr None" by (simp add: getTableData_no_main)
    with p m show ?thesis by simp
  qed
  from sel none show ?thesis by blast
qed

theorem main_schema_selection_witness:
  "load_loop threeFiles cleared = Inr threeLoaded \<and>
   filter is_main (documents threeFiles) = [arrayOfRows, pointerSchema] \<and>
   mainSchema threeLoaded = pointerSchema \<and>
   processFiles 3 sample_runtime cleared threeFiles = Inr (threeLoaded\<lparr>keywordUsage := [(''type'', 1)]\<rparr>, True) \<and>
   load_loop noMainFiles cleared = Inr noMainLoaded \<and>
   filter is_main (documents noMainFiles) = [] \<and> length (schemas noMainLoaded) = 2 \<and>
   processFiles 3 sample_runtime cleared noMainFiles = Inr (noMainLoaded, False) \<and>
   getTableData 3 sample_runtime noMainLoaded = Inr None"
proof -
  have l1: "load_loop threeFiles cleared = Inr threeLoaded" by code_simp
  have q1: "filter is_main (documents threeFiles) = [arrayOfRows, pointerSchema]" by code_simp
  have c1: "collectKeywordUsage 3 sample_runtime threeLoaded = Inr (threeLoaded\<lparr>keywordUsage := [(''type'', 1)]\<rparr>)"
    by code_simp
  have l2: "load_loop noMainFiles cleared = Inr noMainLoaded" by code_simp
  have q2: "filter is_main (documents noMainFiles) = [] \<and> length (schemas noMainLoaded) = 2"
    by code_simp
  from main_schema_selection[OF l1, where depth = 3 and rt = sample_runtime and s = cleared] q1 c1
  have a: "mainSchema threeLoaded = pointerSchema \<and>
     processFiles 3 sample_runtime cleared threeFiles = Inr (threeLoaded\<lparr>keywordUsage := [(''type'', 1)]\<rparr>, True)"
    by simp
  from main_schema_selection[OF l2, where depth = 3 and rt = sample_runtime and s = cleared] q2
  have b: "processFiles 3 sample_runtime cleared noMainFiles = Inr (noMainLoaded, False) \<and>
     getTableData 3 sample_runtime noMainLoaded = Inr None"
    by simp
  from l1 q1 a l2 q2 b show ?thesis by blast
qed

text \<open>
  C6, as stated: a single document that is no main schema by the predicate becomes the main schema,
  and \<^verbatim>\<open>processFiles\<close> returns true. A document in which the fragment of a
  property is null is loaded, but the keyword collection that follows reads the keys of null, and
  \<^verbatim>\<open>processFiles\<close> raises a TypeError.
\<close>

theorem null_fragment_raises:
  "\<not> is_main nullFragmentSchema \<and>
   load_loop [(''u.json'', Some nullFragmentSchema)] cleared =
     Inr \<lparr>schemas = [(JStr ''u.json'', nullFragmentSchema)], mainSchema = JNull, keywordUsage = []\<rparr> \<and>
   processFiles 3 sample_runtime cleared [(''u.json'', Some nullFragmentSchema)] = Inl TypeError"
  by code_simp

text \<open>
  C6, amended: a single document that is not null and no main schema by the predicate becomes the
  main schema, whatever its shape, and \<^verbatim>\<open>processFiles\<close> returns true unless
  the keyword collection over it raises, which \<^verbatim>\<open>processFiles\<close> then raises
  too; it returns true in particular when the document is falsy or has no truthy
  \<^verbatim>\<open>items\<close>.
\<close>

theorem single_document_fallback:
  assumes "doc \<noteq> JNull" and "\<not> is_main doc"
  shows "(case (if truthy doc then collectKeywordUsage depth rt (single_state n doc)
                else Inr (single_state n doc)) of
            Inl e \<Rightarrow> processFiles depth rt s [(n, Some doc)] = Inl e
          | Inr s' \<Rightarrow> processFiles depth rt s [(n, Some doc)] = Inr (s', True) \<and> mainSchema s' = doc)
       \<and> (\<not> truthy_u (own_prop doc ''items'') \<longrightarrow>
            processFiles depth rt s [(n, Some doc)] = Inr (single_state n doc, True))"
proof -
  have p: "processFiles depth rt s [(n, Some doc)] =
      (case (if truthy doc then collectKeywordUsage depth rt (single_state n doc)
             else Inr (single_state n doc)) of
         Inl e \<Rightarrow> Inl e
       | Inr s3 \<Rightarrow> Inr (s3, mainSchema s3 \<noteq> JNull))"
    unfolding processFiles_def cleared_state load_single[OF assms]
    by (simp add: single_state_def)
  have m: "mainSchema s' = doc" if "collectKeywordUsage depth rt (single_state n doc) = Inr s'" for s'
    using collectKeywordUsage_main[OF that] by (simp add: single_state_def)
  have one: "case (if truthy doc then collectKeywordUsage depth rt (single_state n doc)
                else Inr (single_state n doc)) of
            Inl e \<Rightarrow> processFiles depth rt s [(n, Some doc)] = Inl e
          | Inr s' \<Rightarrow> processFiles depth rt s [(n, Some doc)] = Inr (s', True) \<and> mainSchema s' = doc"
    using assms(1) m by (auto simp: p single_state_def split: sum.splits)
  have two: "processFiles depth rt s [(n, Some doc)] = Inr (single_state n doc, True)"
    if "\<not> truthy_u (own_prop doc ''items'')"
  proof -
    from that have "collectKeywordUsage depth rt (single_state n doc) = Inr (single_state n doc)"
      by (intro collect_no_items) (simp_all add: single_state_def)
    with assms(1) show ?thesis by (simp add: p) (simp add: single_state_def)
  qed
  from one two show ?thesis by blast
qed

theorem single_document_fallback_witness:
  "untypedSchema \<noteq> JNull \<and> \<not> is_main untypedSchema \<and>
   processFiles 3 sample_runtime cleared [(''u.json'', Some untypedSchema)] =
     Inr (\<lparr>schemas = [(JStr ''u.json'', untypedSchema)], mainSchema = untypedSchema,
           keywordUsage = [(''type'', 1)]\<rparr>, True) \<and>
   JBool False \<noteq> JNull \<and> \<not> is_main (JBool False) \<and> \<not> truthy_u (own_prop (JBool False) ''items'') \<and>
   processFiles 3 sample_runtime cleared [(''f.json'', Some (JBool False))] =
     Inr (\<lparr>schemas = [(JStr ''f.json'', JBool False)], mainSchema = JBool False, keywordUsage = []\<rparr>, True)"
proof -
  have h: "untypedSchema \<noteq> JNull \<and> \<not> is_main untypedSchema" by code_simp
  have t: "truthy untypedSchema" by code_simp
  have c: "collectKeywordUsage 3 sample_runtime (single_state ''u.json'' untypedSchema) =
     Inr \<lparr>schemas = [(JStr ''u.json'', untypedSchema)], mainSchema = untypedSchema,
           keywordUsage = [(''type'', 1)]\<rparr>"
    by code_simp
  have g: "JBool False \<noteq> JNull \<and> \<not> is_main (JBool False) \<and> \<not> truthy_u (own_prop (JBool False) ''items'')"
    by code_simp
  have s: "single_state ''f.json'' (JBool False) =
     \<lparr>schemas = [(JStr ''f.json'', JBool False)], mainSchema = JBool False, keywordUsage = []\<rparr>"
    by code_simp
  from single_document_fallback[where doc = untypedSchema and depth = 3 and rt = sample_runtime and n = "''u.json''" and s = cleared] h t c
  have a: "processFiles 3 sample_runtime cleared [(''u.json'', Some untypedSchema)] =
     Inr (\<lparr>schemas = [(JStr ''u.json'', untypedSchema)], mainSchema = untypedSchema,
           keywordUsage = [(''type'', 1)]\<rparr>, True)"
    by simp
  from single_document_fallback[where doc = "JBool False" and depth = 3 and rt = sample_runtime and n = "''f.json''" and s = cleared] g s
  have b: "processFiles 3 sample_runtime cleared [(''f.json'', Some (JBool False))] =
     Inr (\<lparr>schemas = [(JStr ''f.json'', JBool False)], mainSchema = JBool False, keywordUsage = []\<rparr>, True)"
    by simp
  from h a g b show ?thesis by blast
qed

section \<open>The CSV export\<close>




end
